theory Spec2Isabelle
  imports Complex_Main "HOL-Library.AList" "HOL-Library.Sublist"
begin

section \<open>Python values and dictionaries\<close>

text \<open>
  The records handled by \<^verbatim>\<open>communex/cli/_common.py\<close> are Python dictionaries with
  string keys and values of any type. A value is \<^verbatim>\<open>None\<close>, a bool, an unbounded
  integer, a float, a string, a list or a nested dictionary. Floats are kept abstract
  (the type parameter \<open>'f\<close>): no property below depends on how a float is represented.
  A dictionary is an association list in insertion order; Python keeps its keys distinct.
\<close>

datatype 'f pyval =
    PNone
  | PBool bool
  | PInt int
  | PFloat 'f
  | PStr string
  | PList "'f pyval list"
  | PDict "(string \<times> 'f pyval) list"

type_synonym 'f pydict = "(string \<times> 'f pyval) list"

datatype pyerr =
    KeyError string
  | TypeError
  | ValueError string
  | ZeroDivisionError
  | IndexError
  | NotRenderableError
  | ConnectionError string

text \<open>\<^verbatim>\<open>d[k] = v\<close>: an existing key keeps its place, a new key goes to the end.\<close>

definition dict_setitem :: "string \<Rightarrow> 'f pyval \<Rightarrow> 'f pydict \<Rightarrow> 'f pydict" where
  "dict_setitem k v d = AList.update k v d"

text \<open>\<^verbatim>\<open>d[k]\<close> raises \<^verbatim>\<open>KeyError\<close> on a missing key.\<close>

definition dict_getitem :: "string \<Rightarrow> 'f pydict \<Rightarrow> pyerr + 'f pyval" where
  "dict_getitem k d = (case map_of d k of None \<Rightarrow> Inl (KeyError k) | Some v \<Rightarrow> Inr v)"

text \<open>\<^verbatim>\<open>d.get(k)\<close> returns \<^verbatim>\<open>None\<close> on a missing key.\<close>

definition dict_get :: "string \<Rightarrow> 'f pydict \<Rightarrow> 'f pyval" where
  "dict_get k d = (case map_of d k of None \<Rightarrow> PNone | Some v \<Rightarrow> v)"

text \<open>\<^verbatim>\<open>del d[k]\<close> raises \<^verbatim>\<open>KeyError\<close> on a missing key.\<close>

definition dict_delitem :: "string \<Rightarrow> 'f pydict \<Rightarrow> pyerr + 'f pydict" where
  "dict_delitem k d =
     (if k \<in> set (map fst d) then Inr (AList.delete k d) else Inl (KeyError k))"

definition keys :: "'f pydict \<Rightarrow> string list" where
  "keys d = map fst d"

section \<open>remove_none_values\<close>

text \<open>
  \<^verbatim>\<open>
  def remove_none_values(data):
      cleaned_data = {}
      for key, value in data.items():
          if isinstance(value, dict):
              cleaned_value = remove_none_values(value)
              if cleaned_value is not None:
                  cleaned_data[key] = cleaned_value
          elif value is not None:
              cleaned_data[key] = value
      return cleaned_data
  \<close>
  The loop is \<open>remove_none_loop\<close>, with \<^verbatim>\<open>cleaned_data\<close> as its accumulator.
\<close>

fun remove_none_loop :: "'f pydict \<Rightarrow> 'f pydict \<Rightarrow> 'f pydict" where
  "remove_none_loop [] cleaned_data = cleaned_data"
| "remove_none_loop ((key, value) # items) cleaned_data =
     (case value of
        PDict sub \<Rightarrow>
          (let cleaned_value = PDict (remove_none_loop sub [])
           in if cleaned_value \<noteq> PNone
              then remove_none_loop items (dict_setitem key cleaned_value cleaned_data)
              else remove_none_loop items cleaned_data)
      | PNone \<Rightarrow> remove_none_loop items cleaned_data
      | _ \<Rightarrow> remove_none_loop items (dict_setitem key value cleaned_data))"

definition remove_none_values :: "'f pydict \<Rightarrow> 'f pydict" where
  "remove_none_values data = remove_none_loop data []"

text \<open>
  Two readings of ``no null value'': \<open>null_free\<close> looks at every value reachable
  through dictionaries and lists; \<open>dict_null_free\<close> only follows dictionaries nested
  directly in dictionaries, which are the values \<^verbatim>\<open>remove_none_values\<close> recurses into.
\<close>

fun null_free :: "'f pyval \<Rightarrow> bool" where
  "null_free PNone = False"
| "null_free (PDict d) = list_all (\<lambda>e. null_free (snd e)) d"
| "null_free (PList xs) = list_all null_free xs"
| "null_free _ = True"

fun dict_null_free :: "'f pyval \<Rightarrow> bool" where
  "dict_null_free PNone = False"
| "dict_null_free (PDict d) = list_all (\<lambda>e. dict_null_free (snd e)) d"
| "dict_null_free _ = True"

fun distinct_keys :: "'f pyval \<Rightarrow> bool" where
  "distinct_keys (PDict d) = (distinct (map fst d) \<and> list_all (\<lambda>e. distinct_keys (snd e)) d)"
| "distinct_keys _ = True"

section \<open>Collaborators outside this file\<close>

text \<open>
  \<^verbatim>\<open>from_nano\<close> and \<^verbatim>\<open>from_horus\<close> come from \<^verbatim>\<open>communex.balance\<close>, and
  \<^verbatim>\<open>round\<close>, \<^verbatim>\<open>str\<close> and the arithmetic on floats are Python's own. None of them
  is defined in this file of the repository, so they are parameters: each may return a
  value or raise. Integer arithmetic is written out, since Python's integers are exact.
\<close>

record 'f pylib =
  from_nano :: "'f pyval \<Rightarrow> pyerr + 'f pyval"
  from_horus :: "'f pyval \<Rightarrow> int \<Rightarrow> pyerr + 'f pyval"
  round_ndigits :: "'f pyval \<Rightarrow> int \<Rightarrow> pyerr + 'f pyval"
  num_add :: "'f pyval \<Rightarrow> 'f pyval \<Rightarrow> pyerr + 'f pyval"
  num_gt :: "'f pyval \<Rightarrow> 'f pyval \<Rightarrow> pyerr + 'f pyval"
  py_str :: "'f pyval \<Rightarrow> string"

text \<open>\<^verbatim>\<open>a + b\<close> and \<^verbatim>\<open>a > b\<close>: exact on two integers, the library's otherwise.\<close>

definition py_add :: "'f pylib \<Rightarrow> 'f pyval \<Rightarrow> 'f pyval \<Rightarrow> pyerr + 'f pyval" where
  "py_add lib a b =
     (case (a, b) of (PInt x, PInt y) \<Rightarrow> Inr (PInt (x + y)) | _ \<Rightarrow> num_add lib a b)"

definition py_gt :: "'f pylib \<Rightarrow> 'f pyval \<Rightarrow> 'f pyval \<Rightarrow> pyerr + 'f pyval" where
  "py_gt lib a b =
     (case (a, b) of (PInt x, PInt y) \<Rightarrow> Inr (PBool (y < x)) | _ \<Rightarrow> num_gt lib a b)"

text \<open>
  Python's \<^verbatim>\<open>sum(vs)\<close>: \<open>0 + v1 + v2 + ...\<close> from the left. This is the reading of
  ``sum'' used to state what the caption of \<^verbatim>\<open>print_module_info\<close> holds.
\<close>

fun py_sum_from :: "'f pylib \<Rightarrow> 'f pyval \<Rightarrow> 'f pyval list \<Rightarrow> pyerr + 'f pyval" where
  "py_sum_from lib acc [] = Inr acc"
| "py_sum_from lib acc (v # vs) =
     (case py_add lib acc v of Inl e \<Rightarrow> Inl e | Inr acc' \<Rightarrow> py_sum_from lib acc' vs)"

definition py_sum :: "'f pylib \<Rightarrow> 'f pyval list \<Rightarrow> pyerr + 'f pyval" where
  "py_sum lib vs = py_sum_from lib (PInt 0) vs"

section \<open>The store of dictionary objects\<close>

text \<open>
  \<^verbatim>\<open>transform_module_into\<close> receives references to dictionaries, copies each one
  and changes the copy in place. The store is the list of all dictionary objects; a
  reference is an index into it; a new object goes to the end. Every operation on a
  dictionary object names the reference it acts on.
\<close>

type_synonym ref = nat
type_synonym 'f heap = "'f pydict list"

definition on_ok :: "pyerr + 'a \<Rightarrow> 'h \<Rightarrow> ('a \<Rightarrow> (pyerr + 'b) \<times> 'h) \<Rightarrow> (pyerr + 'b) \<times> 'h" where
  "on_ok r h f = (case r of Inl e \<Rightarrow> (Inl e, h) | Inr v \<Rightarrow> f v)"

definition h_copy :: "ref \<Rightarrow> 'f heap \<Rightarrow> ref \<times> 'f heap" where
  "h_copy a h = (length h, h @ [h ! a])"

definition h_getitem :: "ref \<Rightarrow> string \<Rightarrow> 'f heap \<Rightarrow> pyerr + 'f pyval" where
  "h_getitem a k h = dict_getitem k (h ! a)"

definition h_get :: "ref \<Rightarrow> string \<Rightarrow> 'f heap \<Rightarrow> 'f pyval" where
  "h_get a k h = dict_get k (h ! a)"

definition h_setitem :: "ref \<Rightarrow> string \<Rightarrow> 'f pyval \<Rightarrow> 'f heap \<Rightarrow> 'f heap" where
  "h_setitem a k v h = h[a := dict_setitem k v (h ! a)]"

definition h_delitem :: "ref \<Rightarrow> string \<Rightarrow> 'f heap \<Rightarrow> pyerr + 'f heap" where
  "h_delitem a k h =
     (case dict_delitem k (h ! a) of Inl e \<Rightarrow> Inl e | Inr d \<Rightarrow> Inr (h[a := d]))"

section \<open>transform_module_into\<close>

text \<open>
  \<^verbatim>\<open>
  def transform_module_into(to_exclude, last_block, immunity_period, modules, tempo):
      mods = cast(list[dict[str, Any]], modules)
      transformed_modules = []
      for mod in mods:
          module = mod.copy()
          module_regblock = module["regblock"]
          module["in_immunity"] = module_regblock + immunity_period > last_block
          for key in to_exclude:
              del module[key]
          module["stake"] = round(from_nano(module["stake"]), 2)
          module["emission"] = round(from_horus(module["emission"], tempo), 4)
          if module.get("balance") is not None:
              module["balance"] = from_nano(module["balance"])
          else:
              # user should not see None values
              del module["balance"]
          transformed_modules.append(module)
      return transformed_modules
  \<close>
  \<open>exclude_keys\<close> is the inner loop, \<open>transform_step\<close> one turn of the outer loop and
  \<open>transform_loop\<close> the outer loop. A raised exception leaves the store as it was at
  that moment.
\<close>

fun exclude_keys :: "ref \<Rightarrow> string list \<Rightarrow> 'f heap \<Rightarrow> (pyerr + unit) \<times> 'f heap" where
  "exclude_keys module_ref [] h = (Inr (), h)"
| "exclude_keys module_ref (key # rest) h =
     on_ok (h_delitem module_ref key h) h (\<lambda>h'. exclude_keys module_ref rest h')"

definition transform_step ::
  "'f pylib \<Rightarrow> string list \<Rightarrow> int \<Rightarrow> int \<Rightarrow> int \<Rightarrow> ref \<Rightarrow> 'f heap \<Rightarrow> (pyerr + ref) \<times> 'f heap" where
  "transform_step lib to_exclude last_block immunity_period tempo mod_ref h0 =
     (let (module_ref, h1) = h_copy mod_ref h0 in
      on_ok (h_getitem module_ref ''regblock'' h1) h1 (\<lambda>module_regblock.
      on_ok (py_add lib module_regblock (PInt immunity_period)) h1 (\<lambda>total.
      on_ok (py_gt lib total (PInt last_block)) h1 (\<lambda>in_immunity.
      let h2 = h_setitem module_ref ''in_immunity'' in_immunity h1 in
      case exclude_keys module_ref to_exclude h2 of
        (Inl e, h3) \<Rightarrow> (Inl e, h3)
      | (Inr _, h3) \<Rightarrow>
      on_ok (h_getitem module_ref ''stake'' h3) h3 (\<lambda>stake.
      on_ok (from_nano lib stake) h3 (\<lambda>stake_j.
      on_ok (round_ndigits lib stake_j 2) h3 (\<lambda>stake_r.
      let h4 = h_setitem module_ref ''stake'' stake_r h3 in
      on_ok (h_getitem module_ref ''emission'' h4) h4 (\<lambda>emission.
      on_ok (from_horus lib emission tempo) h4 (\<lambda>emission_j.
      on_ok (round_ndigits lib emission_j 4) h4 (\<lambda>emission_r.
      let h5 = h_setitem module_ref ''emission'' emission_r h4 in
      if h_get module_ref ''balance'' h5 \<noteq> PNone
      then
        on_ok (h_getitem module_ref ''balance'' h5) h5 (\<lambda>balance.
        on_ok (from_nano lib balance) h5 (\<lambda>balance_j.
        (Inr module_ref, h_setitem module_ref ''balance'' balance_j h5)))
      else
        on_ok (h_delitem module_ref ''balance'' h5) h5 (\<lambda>h6. (Inr module_ref, h6))))))))))))"

fun transform_loop ::
  "'f pylib \<Rightarrow> string list \<Rightarrow> int \<Rightarrow> int \<Rightarrow> int \<Rightarrow> ref list \<Rightarrow> ref list \<Rightarrow> 'f heap
     \<Rightarrow> (pyerr + ref list) \<times> 'f heap" where
  "transform_loop lib to_exclude last_block immunity_period tempo [] transformed_modules h =
     (Inr transformed_modules, h)"
| "transform_loop lib to_exclude last_block immunity_period tempo (mod_ref # mods) transformed_modules h =
     (case transform_step lib to_exclude last_block immunity_period tempo mod_ref h of
        (Inl e, h') \<Rightarrow> (Inl e, h')
      | (Inr module_ref, h') \<Rightarrow>
          transform_loop lib to_exclude last_block immunity_period tempo mods
            (transformed_modules @ [module_ref]) h')"

definition transform_module_into ::
  "'f pylib \<Rightarrow> string list \<Rightarrow> int \<Rightarrow> int \<Rightarrow> ref list \<Rightarrow> int \<Rightarrow> 'f heap
     \<Rightarrow> (pyerr + ref list) \<times> 'f heap" where
  "transform_module_into lib to_exclude last_block immunity_period modules tempo h =
     transform_loop lib to_exclude last_block immunity_period tempo modules [] h"

text \<open>
  What one turn of the loop does to the copy, as a function of the copied dictionary
  alone: the result, with the dictionary as the turn leaves it. The lemma
  \<open>transform_step_record\<close> below proves that \<open>transform_step\<close> computes exactly this
  on a new object and touches no other.
\<close>

fun exclude_record :: "string list \<Rightarrow> 'f pydict \<Rightarrow> (pyerr + unit) \<times> 'f pydict" where
  "exclude_record [] d = (Inr (), d)"
| "exclude_record (key # rest) d =
     on_ok (dict_delitem key d) d (\<lambda>d'. exclude_record rest d')"

definition transform_record ::
  "'f pylib \<Rightarrow> string list \<Rightarrow> int \<Rightarrow> int \<Rightarrow> int \<Rightarrow> 'f pydict \<Rightarrow> (pyerr + unit) \<times> 'f pydict" where
  "transform_record lib to_exclude last_block immunity_period tempo d1 =
     (on_ok (dict_getitem ''regblock'' d1) d1 (\<lambda>module_regblock.
      on_ok (py_add lib module_regblock (PInt immunity_period)) d1 (\<lambda>total.
      on_ok (py_gt lib total (PInt last_block)) d1 (\<lambda>in_immunity.
      let d2 = dict_setitem ''in_immunity'' in_immunity d1 in
      case exclude_record to_exclude d2 of
        (Inl e, d3) \<Rightarrow> (Inl e, d3)
      | (Inr _, d3) \<Rightarrow>
      on_ok (dict_getitem ''stake'' d3) d3 (\<lambda>stake.
      on_ok (from_nano lib stake) d3 (\<lambda>stake_j.
      on_ok (round_ndigits lib stake_j 2) d3 (\<lambda>stake_r.
      let d4 = dict_setitem ''stake'' stake_r d3 in
      on_ok (dict_getitem ''emission'' d4) d4 (\<lambda>emission.
      on_ok (from_horus lib emission tempo) d4 (\<lambda>emission_j.
      on_ok (round_ndigits lib emission_j 4) d4 (\<lambda>emission_r.
      let d5 = dict_setitem ''emission'' emission_r d4 in
      if dict_get ''balance'' d5 \<noteq> PNone
      then
        on_ok (dict_getitem ''balance'' d5) d5 (\<lambda>balance.
        on_ok (from_nano lib balance) d5 (\<lambda>balance_j.
        (Inr (), dict_setitem ''balance'' balance_j d5)))
      else
        on_ok (dict_delitem ''balance'' d5) d5 (\<lambda>d6. (Inr (), d6))))))))))))"

section \<open>Tables and the console\<close>

text \<open>
  The table and the console belong to the \<^verbatim>\<open>rich\<close> library. A table is modelled by
  what this file puts into it: its title, the column headers in the order of the
  \<^verbatim>\<open>add_column\<close> calls, the rows in the order of the \<^verbatim>\<open>add_row\<close> calls, each row
  as the texts of the cells handed over, and the caption. The console is the list of
  what was printed.

  \<^verbatim>\<open>Table.add_row\<close> takes a cell that is \<^verbatim>\<open>None\<close> as the empty text and a cell that
  is a string as it is; for a cell that is neither of these nor one of the library's own
  renderable objects it raises \<^verbatim>\<open>NotRenderableError\<close>, and the row is not added. Of the
  values modelled here only \<^verbatim>\<open>None\<close> and strings are accepted.
\<close>

record table =
  title :: "string option"
  columns :: "string list"
  rows :: "string list list"
  caption :: "string option"

datatype console_item = PrintTable table | PrintBlank

type_synonym console = "console_item list"

definition new_table :: "string option \<Rightarrow> table" where
  "new_table t = \<lparr>title = t, columns = [], rows = [], caption = None\<rparr>"

definition add_column :: "string \<Rightarrow> table \<Rightarrow> table" where
  "add_column name t = t\<lparr>columns := columns t @ [name]\<rparr>"

definition renderable_cell :: "'f pyval \<Rightarrow> bool" where
  "renderable_cell v = (case v of PNone \<Rightarrow> True | PStr s \<Rightarrow> True | _ \<Rightarrow> False)"

definition cell_text :: "'f pyval \<Rightarrow> string" where
  "cell_text v = (case v of PStr s \<Rightarrow> s | _ \<Rightarrow> [])"

definition add_row :: "'f pyval list \<Rightarrow> table \<Rightarrow> pyerr + table" where
  "add_row cells t =
     (if list_all renderable_cell cells
      then Inr (t\<lparr>rows := rows t @ [map cell_text cells]\<rparr>)
      else Inl NotRenderableError)"

section \<open>print_table_standardize\<close>




section \<open>print_module_info\<close>

text \<open>
  Modelled from the spec: the connection service is not in this file of the repository.
  Its three methods are taken as the spec gives them, \<^verbatim>\<open>getBlock() -> {header:
  {number: integer}} | absent\<close>, \<^verbatim>\<open>getImmunityPeriod(netuid) -> integer\<close> and
  \<^verbatim>\<open>getTempo(netuid) -> integer\<close>; each may also raise. \<open>get_block\<close> gives the
  header's number of the block, or \<open>None\<close> for an absent block.
\<close>

record commune_client =
  get_block :: "pyerr + int option"
  get_immunity_period :: "int \<Rightarrow> pyerr + int"
  get_tempo :: "int \<Rightarrow> pyerr + int"

text \<open>
  \<^verbatim>\<open>
  def print_module_info(client, modules, console, netuid, title=None):
      if not modules:
          return
      block = client.get_block()
      if block:
          last_block = block["header"]["number"]
      else:
          raise ValueError("Could not get block info")
      immunity_period = client.get_immunity_period(netuid)
      tempo = client.get_tempo(netuid)
      table = Table(..., title=title, ...)
      to_exclude = ["stake_from", "last_update", "regblock"]
      tranformed_modules = transform_module_into(
          to_exclude, last_block, immunity_period, modules, tempo)
      sample_mod = tranformed_modules[0]
      for key in sample_mod.keys():
          table.add_column(key, style="white")
      total_stake = 0
      total_balance = 0
      for mod in tranformed_modules:
          total_stake += mod["stake"]
          if mod.get("balance") is not None:
              total_balance += mod["balance"]
          row = []
          for val in mod.values():
              row.append(str(val))
          table.add_row(*row)
      table.caption = "total balance: " + f"{total_balance + total_stake}J"
      console.print(table)
      for _ in range(3):
          console.print()
  \<close>
  \<open>rows_loop\<close> is the loop over \<^verbatim>\<open>tranformed_modules\<close>; it only reads the store.
  Every cell of a row is the string \<^verbatim>\<open>str(val)\<close>.
\<close>

fun rows_loop ::
  "'f pylib \<Rightarrow> ref list \<Rightarrow> 'f pyval \<Rightarrow> 'f pyval \<Rightarrow> table \<Rightarrow> 'f heap
     \<Rightarrow> pyerr + ('f pyval \<times> 'f pyval \<times> table)" where
  "rows_loop lib [] total_stake total_balance table h = Inr (total_stake, total_balance, table)"
| "rows_loop lib (m # rest) total_stake total_balance table h =
     (case h_getitem m ''stake'' h of Inl e \<Rightarrow> Inl e | Inr stake \<Rightarrow>
      case py_add lib total_stake stake of Inl e \<Rightarrow> Inl e | Inr total_stake' \<Rightarrow>
      case (if h_get m ''balance'' h \<noteq> PNone
            then (case h_getitem m ''balance'' h of
                    Inl e \<Rightarrow> Inl e
                  | Inr balance \<Rightarrow> py_add lib total_balance balance)
            else Inr total_balance) of Inl e \<Rightarrow> Inl e | Inr total_balance' \<Rightarrow>
      let row = map (\<lambda>val. PStr (py_str lib val) :: 'f pyval) (map snd (h ! m))
      in case add_row row table of
           Inl e \<Rightarrow> Inl e
         | Inr table' \<Rightarrow> rows_loop lib rest total_stake' total_balance' table' h)"

definition print_module_info ::
  "'f pylib \<Rightarrow> commune_client \<Rightarrow> ref list \<Rightarrow> console \<Rightarrow> int \<Rightarrow> string option \<Rightarrow> 'f heap
     \<Rightarrow> (pyerr + console) \<times> 'f heap" where
  "print_module_info lib client modules console netuid ttl h =
     (if modules = [] then (Inr console, h)
      else
      on_ok (get_block client) h (\<lambda>block.
      case block of
        None \<Rightarrow> (Inl (ValueError ''Could not get block info''), h)
      | Some last_block \<Rightarrow>
      on_ok (get_immunity_period client netuid) h (\<lambda>immunity_period.
      on_ok (get_tempo client netuid) h (\<lambda>tempo.
      let table = new_table ttl;
          to_exclude = [''stake_from'', ''last_update'', ''regblock'']
      in
      case transform_module_into lib to_exclude last_block immunity_period modules tempo h of
        (Inl e, h') \<Rightarrow> (Inl e, h')
      | (Inr tranformed_modules, h') \<Rightarrow>
      (case tranformed_modules of
         [] \<Rightarrow> (Inl IndexError, h')
       | sample_mod # _ \<Rightarrow>
      let table = foldl (\<lambda>t key. add_column key t) table (keys (h' ! sample_mod)) in
      on_ok (rows_loop lib tranformed_modules (PInt 0) (PInt 0) table h') h'
        (\<lambda>(total_stake, total_balance, table).
      on_ok (py_add lib total_balance total_stake) h' (\<lambda>total.
      let table = table\<lparr>caption := Some (''total balance: '' @ py_str lib total @ ''J'')\<rparr>
      in (Inr (console @ [PrintTable table, PrintBlank, PrintBlank, PrintBlank]), h'))))))))"

section \<open>CustomCtx.com_client\<close>

text \<open>
  \<^verbatim>\<open>
  def com_client(self) -> CommuneClient:
      use_testnet = self.use_testnet
      if self._com_client is not None:
          return self._com_client
      node_url = get_node_url(None, use_testnet = use_testnet)
      with self.progress_status() as status:
          for current in range(1, 6):
              status.update(f'Connecting to node {node_url}...')
              try:
                  self._com_client = CommuneClient(
                      url = node_url, num_connections = 1, wait_for_finalization = False)
                  # If the code is here, it connected successfully
                  break
              except Exception:
                  status.update(f'Connecting to node {node_url} ({current}/5 retries)...')
      if self._com_client is None:
          raise ConnectionError("Could not connect to any node")
      return self._com_client
  \<close>
  The context keeps the fields of the dataclass that hold data; the field
  \<^verbatim>\<open>_com_client\<close> is \<open>com_client_field\<close>. The world outside the context is the
  number of constructor calls made so far and the status line's updates in order.
  \<^verbatim>\<open>get_node_url\<close> (from \<^verbatim>\<open>communex._common\<close>) and the constructor
  \<^verbatim>\<open>CommuneClient\<close> are parameters; the constructor's outcome may depend on how many
  calls came before, and \<open>Inl\<close> is an exception of class \<^verbatim>\<open>Exception\<close>.
\<close>

record 'c CustomCtx =
  com_client_field :: "'c option"
  use_json_output :: bool
  use_yes_to_all :: bool
  use_testnet :: bool
  interactive :: bool
  color :: bool

record node_world =
  constructor_calls :: nat
  status_updates :: "string list"

fun str_digits :: "nat \<Rightarrow> nat \<Rightarrow> string" where
  "str_digits 0 n = []"
| "str_digits (Suc fuel) n =
     (if n < 10 then [char_of (48 + n)]
      else str_digits fuel (n div 10) @ [char_of (48 + n mod 10)])"

definition str_nat :: "nat \<Rightarrow> string" where
  "str_nat n = str_digits (Suc n) n"

definition status_update :: "string \<Rightarrow> node_world \<Rightarrow> node_world" where
  "status_update msg w = w\<lparr>status_updates := status_updates w @ [msg]\<rparr>"

fun connect_loop ::
  "(nat \<Rightarrow> string \<Rightarrow> nat \<Rightarrow> bool \<Rightarrow> pyerr + 'c) \<Rightarrow> string \<Rightarrow> nat list
     \<Rightarrow> 'c CustomCtx \<Rightarrow> node_world \<Rightarrow> 'c CustomCtx \<times> node_world" where
  "connect_loop CommuneClient node_url [] self w = (self, w)"
| "connect_loop CommuneClient node_url (current # rest) self w =
     (let w1 = status_update (''Connecting to node '' @ node_url @ ''...'') w;
          w2 = w1\<lparr>constructor_calls := Suc (constructor_calls w1)\<rparr>
      in case CommuneClient (constructor_calls w1) node_url 1 False of
           Inr client \<Rightarrow> (self\<lparr>com_client_field := Some client\<rparr>, w2)
         | Inl e \<Rightarrow>
             connect_loop CommuneClient node_url rest self
               (status_update
                  (''Connecting to node '' @ node_url @ '' ('' @ str_nat current @ ''/5 retries)...'')
                  w2))"

definition com_client ::
  "(bool \<Rightarrow> string) \<Rightarrow> (nat \<Rightarrow> string \<Rightarrow> nat \<Rightarrow> bool \<Rightarrow> pyerr + 'c)
     \<Rightarrow> 'c CustomCtx \<Rightarrow> node_world \<Rightarrow> (pyerr + 'c) \<times> 'c CustomCtx \<times> node_world" where
  "com_client get_node_url CommuneClient self w =
     (let testnet = use_testnet self in
      case com_client_field self of
        Some client \<Rightarrow> (Inr client, self, w)
      | None \<Rightarrow>
          (let node_url = get_node_url testnet;
               (self', w') = connect_loop CommuneClient node_url [1..<6] self w
           in case com_client_field self' of
                None \<Rightarrow> (Inl (ConnectionError ''Could not connect to any node''), self', w')
              | Some client \<Rightarrow> (Inr client, self', w')))"

section \<open>A library instance for concrete runs\<close>

text \<open>
  Modelled from the spec: \<^verbatim>\<open>fromNano\<close> ``divides raw integer units by a fixed scale
  factor (1e9-equivalent)'' and \<^verbatim>\<open>fromHorus\<close> ``divides raw integer units by a
  tempo-dependent scale factor''. This instance computes with exact rationals in place
  of floats and is used only to run the functions above on concrete records; every
  general theorem below holds for any library. It is a stand-in, not Python: it writes a
  number as a fraction, rounds a tie upwards and never overflows.
\<close>

definition exact_round :: "rat \<Rightarrow> int \<Rightarrow> rat" where
  "exact_round x ndigits = of_int (round (x * 10 ^ nat ndigits)) / 10 ^ nat ndigits"

definition exact_num :: "rat pyval \<Rightarrow> rat option" where
  "exact_num v = (case v of PInt n \<Rightarrow> Some (of_int n) | PFloat x \<Rightarrow> Some x
                  | PBool b \<Rightarrow> Some (if b then 1 else 0) | _ \<Rightarrow> None)"

definition str_int :: "int \<Rightarrow> string" where
  "str_int i = (if i < 0 then CHR ''-'' # str_nat (nat (- i)) else str_nat (nat i))"

definition exact_lib :: "rat pylib" where
  "exact_lib =
     \<lparr>from_nano = (\<lambda>v. case exact_num v of None \<Rightarrow> Inl TypeError
                       | Some x \<Rightarrow> Inr (PFloat (x / 1000000000))),
      from_horus = (\<lambda>v tempo. case exact_num v of None \<Rightarrow> Inl TypeError
                       | Some x \<Rightarrow> if tempo = 0 then Inl ZeroDivisionError
                                  else Inr (PFloat (x / (1000000000 * of_int tempo)))),
      round_ndigits = (\<lambda>v n. case v of PFloat x \<Rightarrow> Inr (PFloat (exact_round x n))
                       | PInt i \<Rightarrow> Inr (PInt i) | _ \<Rightarrow> Inl TypeError),
      num_add = (\<lambda>a b. case (exact_num a, exact_num b) of
                         (Some x, Some y) \<Rightarrow> Inr (PFloat (x + y)) | _ \<Rightarrow> Inl TypeError),
      num_gt = (\<lambda>a b. case (exact_num a, exact_num b) of
                         (Some x, Some y) \<Rightarrow> Inr (PBool (y < x)) | _ \<Rightarrow> Inl TypeError),
      py_str = (\<lambda>v. case v of
                   PStr s \<Rightarrow> s
                 | PBool b \<Rightarrow> (if b then ''True'' else ''False'')
                 | PInt i \<Rightarrow> str_int i
                 | PFloat x \<Rightarrow> (let (n, d) = quotient_of x in str_int n @ ''/'' @ str_int d)
                 | PNone \<Rightarrow> ''None''
                 | _ \<Rightarrow> ''...'')\<rparr>"

section \<open>Records for concrete runs\<close>

text \<open>
  Module records as the chain client returns them, cut down to the fields the functions
  above look at: \<open>module_a\<close> has a null balance, \<open>module_b\<close> has a balance and
  \<open>module_d\<close> has no \<^verbatim>\<open>name\<close> key.
\<close>

definition module_a :: "rat pydict" where
  "module_a =
     [(''uid'', PInt 0), (''name'', PStr ''alpha''), (''stake_from'', PList []),
      (''regblock'', PInt 100), (''last_update'', PInt 120), (''stake'', PInt 1500000000),
      (''emission'', PInt 2000000000), (''balance'', PNone)]"

definition module_b :: "rat pydict" where
  "module_b =
     [(''uid'', PInt 1), (''name'', PStr ''beta''), (''stake_from'', PList []),
      (''regblock'', PInt 100), (''last_update'', PInt 130), (''stake'', PInt 2500000000),
      (''emission'', PInt 0), (''balance'', PInt 5000000000)]"

definition module_d :: "rat pydict" where
  "module_d =
     [(''uid'', PInt 3), (''stake_from'', PList []),
      (''regblock'', PInt 100), (''last_update'', PInt 130), (''stake'', PInt 2500000000),
      (''emission'', PInt 0), (''balance'', PInt 7000000000)]"

definition excluded :: "string list" where
  "excluded = [''stake_from'', ''last_update'', ''regblock'']"

text \<open>
  A connection service for concrete runs: block 140, immunity period 50 and tempo 100
  on every subnet.
\<close>

definition demo_client :: commune_client where
  "demo_client =
     \<lparr>get_block = Inr (Some 140),
      get_immunity_period = (\<lambda>netuid. Inr 50),
      get_tempo = (\<lambda>netuid. Inr 100)\<rparr>"

text \<open>
  A node URL for each network, a constructor that raises on every call, a constructor
  that raises on its first four calls only, a context as \<^verbatim>\<open>CustomCtx.__init__\<close> leaves
  it (no connection yet) and a world in which no call has been made.
\<close>

definition demo_node_url :: "bool \<Rightarrow> string" where
  "demo_node_url testnet =
     (if testnet then ''wss://testnet.node.example:443'' else ''wss://main.node.example:443'')"

definition failing_client :: "nat \<Rightarrow> string \<Rightarrow> nat \<Rightarrow> bool \<Rightarrow> pyerr + nat" where
  "failing_client n url num_connections wait_for_finalization = Inl (ConnectionError ''refused'')"

definition fresh_ctx :: "nat CustomCtx" where
  "fresh_ctx =
     \<lparr>com_client_field = None, use_json_output = False, use_yes_to_all = False,
      use_testnet = False, interactive = True, color = True\<rparr>"

definition fresh_world :: node_world where
  "fresh_world = \<lparr>constructor_calls = 0, status_updates = []\<rparr>"

section \<open>Properties of remove_none_values\<close>

lemma update_fresh: "k \<notin> set (map fst acc) \<Longrightarrow> AList.update k v acc = acc @ [(k, v)]"
  by (induction acc) auto

lemma set_update_subset: "set (AList.update k v al) \<subseteq> insert (k, v) (set al)"
  by (induction al) auto

text \<open>On a dictionary (distinct keys) the loop is a filter followed by a map.\<close>

lemma remove_none_loop_distinct:
  "distinct (map fst items) \<Longrightarrow> set (map fst items) \<inter> set (map fst acc) = {} \<Longrightarrow>
   remove_none_loop items acc =
     acc @ map (\<lambda>(k, v). (k, case v of PDict sub \<Rightarrow> PDict (remove_none_values sub) | _ \<Rightarrow> v))
             (filter (\<lambda>(k, v). v \<noteq> PNone) items)"
proof (induction items arbitrary: acc)
  case Nil
  then show ?case by simp
next
  case (Cons e items)
  obtain k v where e: "e = (k, v)" by (cases e)
  from Cons.prems have fresh: "k \<notin> set (map fst acc)" and d: "distinct (map fst items)"
    and kn: "k \<notin> set (map fst items)" and dis: "set (map fst items) \<inter> set (map fst acc) = {}"
    by (auto simp: e)
  have dis': "set (map fst items) \<inter> set (map fst (acc @ [(k, w)])) = {}" for w
    using dis kn by auto
  show ?case
    using Cons.IH[OF d dis] Cons.IH[OF d dis']
    by (cases v) (simp_all add: e dict_setitem_def update_fresh[OF fresh] remove_none_values_def)
qed

lemma remove_none_values_distinct:
  "distinct (map fst d) \<Longrightarrow>
   remove_none_values d =
     map (\<lambda>(k, v). (k, case v of PDict sub \<Rightarrow> PDict (remove_none_values sub) | _ \<Rightarrow> v))
       (filter (\<lambda>(k, v). v \<noteq> PNone) d)"
  using remove_none_loop_distinct[of d "[]"] by (simp add: remove_none_values_def)

lemma keys_filter_not_none:
  "distinct (map fst d) \<Longrightarrow>
   map fst (filter (\<lambda>(k, v). v \<noteq> PNone) d) = filter (\<lambda>k. map_of d k \<noteq> Some PNone) (map fst d)"
proof (induction d)
  case Nil
  then show ?case by simp
next
  case (Cons e d)
  obtain k v where e: "e = (k, v)" by (cases e)
  have "filter (\<lambda>k'. map_of (e # d) k' \<noteq> Some PNone) (map fst d)
      = filter (\<lambda>k'. map_of d k' \<noteq> Some PNone) (map fst d)"
    using Cons.prems by (intro filter_cong) (auto simp: e)
  then show ?case using Cons by (auto simp: e)
qed

lemma distinct_keys_setitem:
  "distinct_keys (PDict acc) \<Longrightarrow> distinct_keys v \<Longrightarrow> distinct_keys (PDict (dict_setitem k v acc))"
  using set_update_subset[of k v acc]
  by (auto simp: dict_setitem_def distinct_update list_all_iff)

lemma dict_null_free_setitem:
  "dict_null_free (PDict acc) \<Longrightarrow> dict_null_free v \<Longrightarrow> dict_null_free (PDict (dict_setitem k v acc))"
  using set_update_subset[of k v acc]
  by (auto simp: dict_setitem_def list_all_iff)

lemma remove_none_loop_distinct_keys:
  "distinct_keys (PDict acc) \<Longrightarrow> distinct_keys (PDict (remove_none_loop items acc))"
proof (induction items acc rule: remove_none_loop.induct)
  case (1 cleaned_data)
  then show ?case by simp
next
  case (2 key v items cleaned_data)
  show ?case
  proof (cases v)
    case (PDict sub)
    have "distinct_keys (PDict (remove_none_loop sub []))"
      using "2.IH"(7)[OF PDict] by simp
    then have "distinct_keys (PDict (dict_setitem key (PDict (remove_none_loop sub [])) cleaned_data))"
      using "2.prems" by (rule distinct_keys_setitem[rotated])
    then show ?thesis
      using "2.IH"(8)[OF PDict refl] by (simp add: PDict)
  next
    case PNone
    then show ?thesis using 2 by simp
  qed (use 2 in \<open>simp_all add: distinct_keys_setitem del: distinct_keys.simps(1)\<close>)
qed

lemma remove_none_loop_null_free:
  "dict_null_free (PDict acc) \<Longrightarrow> dict_null_free (PDict (remove_none_loop items acc))"
proof (induction items acc rule: remove_none_loop.induct)
  case (1 cleaned_data)
  then show ?case by simp
next
  case (2 key v items cleaned_data)
  show ?case
  proof (cases v)
    case (PDict sub)
    have "dict_null_free (PDict (remove_none_loop sub []))"
      using "2.IH"(7)[OF PDict] by simp
    then have "dict_null_free (PDict (dict_setitem key (PDict (remove_none_loop sub [])) cleaned_data))"
      using "2.prems" by (rule dict_null_free_setitem[rotated])
    then show ?thesis
      using "2.IH"(8)[OF PDict refl] by (simp add: PDict)
  next
    case PNone
    then show ?thesis using 2 by simp
  qed (use 2 in \<open>simp_all add: dict_null_free_setitem del: dict_null_free.simps(2)\<close>)
qed

text \<open>A dictionary with distinct keys and no null entry at any depth is left as it is.\<close>

lemma remove_none_values_fixed:
  "distinct_keys v \<Longrightarrow> dict_null_free v \<Longrightarrow>
   (case v of PDict d \<Rightarrow> PDict (remove_none_values d) | _ \<Rightarrow> v) = v"
proof (induction v)
  case (PDict d)
  have dist: "distinct (map fst d)" using PDict.prems(1) by simp
  have each: "snd e \<noteq> PNone \<and>
      (case snd e of PDict sub \<Rightarrow> PDict (remove_none_values sub) | _ \<Rightarrow> snd e) = snd e"
    if "e \<in> set d" for e
  proof -
    have nf: "dict_null_free (snd e)" and dk: "distinct_keys (snd e)"
      using that PDict.prems by (auto simp: list_all_iff)
    have "snd e \<in> Basic_BNFs.snds e" by (cases e) simp
    from PDict.IH[OF that this dk nf] nf show ?thesis by auto
  qed
  have "filter (\<lambda>(k, v). v \<noteq> PNone) d = d"
    by (rule filter_True) (use each in fastforce)
  moreover have "map (\<lambda>(k, v). (k, case v of PDict sub \<Rightarrow> PDict (remove_none_values sub) | _ \<Rightarrow> v)) d = d"
    by (rule map_idI) (use each in \<open>simp add: case_prod_unfold prod_eq_iff\<close>)
  ultimately have "remove_none_values d = d"
    using remove_none_values_distinct[OF dist] by simp
  then show ?case by simp
qed simp_all

text \<open>
  C7. On every dictionary, \<^verbatim>\<open>remove_none_values\<close> removes exactly the keys whose value
  is \<^verbatim>\<open>None\<close> and keeps the others in their order; a kept value that is a nested
  dictionary is replaced by its own cleaned version, any other kept value is unchanged;
  a nested dictionary that is or becomes empty stays, as an empty dictionary.
\<close>

theorem remove_none_values_removes_null_keys:
  assumes "distinct (keys d)"
  shows "keys (remove_none_values d) = filter (\<lambda>k. map_of d k \<noteq> Some PNone) (keys d)
       \<and> (\<forall>k v. map_of d k = Some v \<and> v \<noteq> PNone \<longrightarrow>
            map_of (remove_none_values d) k =
              Some (case v of PDict sub \<Rightarrow> PDict (remove_none_values sub) | _ \<Rightarrow> v))
       \<and> (\<forall>k sub. map_of d k = Some (PDict sub) \<and> remove_none_values sub = [] \<longrightarrow>
            map_of (remove_none_values d) k = Some (PDict []))"
proof -
  let ?f = "\<lambda>v. case v of PDict sub \<Rightarrow> PDict (remove_none_values sub) | _ \<Rightarrow> v"
  let ?kept = "filter (\<lambda>(k, v). v \<noteq> PNone) d"
  from assms have dist: "distinct (map fst d)" by (simp add: keys_def)
  have eq: "remove_none_values d = map (\<lambda>(k, v). (k, ?f v)) ?kept"
    by (rule remove_none_values_distinct[OF dist])
  have "map fst (map (\<lambda>(k, v). (k, ?f v)) ?kept) = map fst ?kept"
    by (simp add: case_prod_unfold comp_def)
  then have ks: "keys (remove_none_values d) = filter (\<lambda>k. map_of d k \<noteq> Some PNone) (keys d)"
    unfolding keys_def eq using keys_filter_not_none[OF dist] by simp
  have vals: "map_of (remove_none_values d) k = Some (?f v)"
    if "map_of d k = Some v" "v \<noteq> PNone" for k v
  proof -
    have "map_of ?kept k = Some v"
      using that by (intro map_of_filter_in) simp_all
    then show ?thesis
      unfolding eq by (simp add: map_of_map)
  qed
  have "map_of (remove_none_values d) k = Some (PDict [])"
    if "map_of d k = Some (PDict sub)" "remove_none_values sub = []" for k sub
    using vals[OF that(1)] that(2) by simp
  with ks vals show ?thesis by blast
qed

theorem remove_none_values_removes_null_keys_witness:
  "distinct (keys [(''a'', PInt 1), (''b'', PNone), (''c'', PDict [(''d'', PNone), (''e'', PInt 2 :: unit pyval)])])
   \<and> remove_none_values [(''a'', PInt 1), (''b'', PNone), (''c'', PDict [(''d'', PNone), (''e'', PInt 2 :: unit pyval)])]
       = [(''a'', PInt 1), (''c'', PDict [(''e'', PInt 2)])]
   \<and> keys (remove_none_values [(''a'', PInt 1), (''b'', PNone), (''c'', PDict [(''d'', PNone), (''e'', PInt 2 :: unit pyval)])])
       = [''a'', ''c'']
   \<and> map_of (remove_none_values [(''a'', PInt 1), (''b'', PNone), (''c'', PDict [(''d'', PNone), (''e'', PInt 2 :: unit pyval)])]) ''c''
       = Some (PDict [(''e'', PInt 2)])
   \<and> remove_none_values [(''c'', PDict [(''d'', PNone :: unit pyval)])] = [(''c'', PDict [])]"
proof -
  let ?d = "[(''a'', PInt 1), (''b'', PNone), (''c'', PDict [(''d'', PNone), (''e'', PInt 2 :: unit pyval)])]"
  have dist: "distinct (keys ?d)" by (simp add: keys_def)
  have sub: "remove_none_values [(''d'', PNone), (''e'', PInt 2 :: unit pyval)] = [(''e'', PInt 2)]"
    by (simp add: remove_none_values_def dict_setitem_def)
  have run: "remove_none_values ?d = [(''a'', PInt 1), (''c'', PDict [(''e'', PInt 2)])]"
    by (simp add: remove_none_values_def dict_setitem_def)
  have empty: "remove_none_values [(''c'', PDict [(''d'', PNone :: unit pyval)])] = [(''c'', PDict [])]"
    by (simp add: remove_none_values_def dict_setitem_def)
  note T = remove_none_values_removes_null_keys[OF dist]
  note K = T[THEN conjunct1]
  note V = T[THEN conjunct2, THEN conjunct1, rule_format,
      of "''c''" "PDict [(''d'', PNone), (''e'', PInt 2)]"]
  have ks: "keys (remove_none_values ?d) = [''a'', ''c'']"
    unfolding K by (simp add: keys_def)
  have "map_of (remove_none_values ?d) ''c''
      = Some (PDict (remove_none_values [(''d'', PNone), (''e'', PInt 2)]))"
    using V by simp
  then have c: "map_of (remove_none_values ?d) ''c'' = Some (PDict [(''e'', PInt 2)])"
    unfolding sub .
  from dist run ks c empty show ?thesis by (intro conjI)
qed

text \<open>
  C9 as stated fails where a null sits inside a sequence: \<^verbatim>\<open>{"a": [{"b": None}]}\<close> is
  returned as it is, since only values that are dictionaries themselves are entered.
\<close>

theorem remove_none_values_null_in_list_counterexample:
  "\<not> null_free (PDict (remove_none_values [(''a'', PList [PDict [(''b'', PNone :: unit pyval)]])]))"
  by (simp add: remove_none_values_def dict_setitem_def)

text \<open>
  C9, amended. \<^verbatim>\<open>remove_none_values\<close> is idempotent on every input, and in its output
  no key of the dictionary, or of a dictionary nested in it through dictionaries only,
  has the value \<^verbatim>\<open>None\<close>.
\<close>

theorem remove_none_values_idempotent:
  "remove_none_values (remove_none_values d) = remove_none_values d
   \<and> dict_null_free (PDict (remove_none_values d))"
proof -
  let ?r = "remove_none_values d"
  have dk: "distinct_keys (PDict ?r)"
    unfolding remove_none_values_def by (rule remove_none_loop_distinct_keys) simp
  have nf: "dict_null_free (PDict ?r)"
    unfolding remove_none_values_def by (rule remove_none_loop_null_free) simp
  from remove_none_values_fixed[OF dk nf] have "remove_none_values ?r = ?r" by simp
  with nf show ?thesis by simp
qed

theorem remove_none_values_idempotent_witness:
  "remove_none_values (remove_none_values [(''a'', PNone), (''c'', PDict [(''d'', PNone), (''e'', PInt 2 :: unit pyval)])])
     = [(''c'', PDict [(''e'', PInt 2)])]
   \<and> dict_null_free (PDict (remove_none_values [(''a'', PNone), (''c'', PDict [(''d'', PNone), (''e'', PInt 2 :: unit pyval)])]))"
proof -
  let ?d = "[(''a'', PNone), (''c'', PDict [(''d'', PNone), (''e'', PInt 2 :: unit pyval)])]"
  have run: "remove_none_values ?d = [(''c'', PDict [(''e'', PInt 2)])]"
    by (simp add: remove_none_values_def dict_setitem_def)
  from remove_none_values_idempotent[of ?d] show ?thesis
    by (simp only: run simp_thms)
qed

section \<open>One turn of the transformer, on the store and on the record\<close>

lemma h_getitem_new: "h_getitem (length h) k (h @ [d]) = dict_getitem k d"
  by (simp add: h_getitem_def)

lemma h_get_new: "h_get (length h) k (h @ [d]) = dict_get k d"
  by (simp add: h_get_def)

lemma h_setitem_new: "h_setitem (length h) k v (h @ [d]) = h @ [dict_setitem k v d]"
  by (simp add: h_setitem_def)

lemma h_delitem_new:
  "h_delitem (length h) k (h @ [d]) =
     (case dict_delitem k d of Inl e \<Rightarrow> Inl e | Inr d' \<Rightarrow> Inr (h @ [d']))"
  by (simp add: h_delitem_def split: sum.splits)

lemma exclude_keys_new:
  "exclude_keys (length h) ks (h @ [d]) =
     (case exclude_record ks d of (r, d') \<Rightarrow> (r, h @ [d']))"
proof (induction ks arbitrary: d)
  case Nil
  then show ?case by simp
next
  case (Cons k ks)
  then show ?case
    by (simp add: h_delitem_new on_ok_def split: sum.splits)
qed

text \<open>
  Every write of one turn goes to the new object: the turn appends one dictionary to
  the store, the copy as \<open>transform_record\<close> leaves it, and changes nothing else.
\<close>

lemma transform_step_record:
  "transform_step lib to_exclude last_block immunity_period tempo a h =
     (case transform_record lib to_exclude last_block immunity_period tempo (h ! a) of
        (r, d) \<Rightarrow> (case r of Inl e \<Rightarrow> Inl e | Inr _ \<Rightarrow> Inr (length h), h @ [d]))"
  unfolding transform_step_def transform_record_def h_copy_def
  by (simp add: h_getitem_new h_get_new h_setitem_new h_delitem_new exclude_keys_new
      on_ok_def Let_def split: sum.splits prod.splits)

lemma map_of_setitem: "map_of (dict_setitem k v d) = (map_of d)(k \<mapsto> v)"
  by (simp add: dict_setitem_def update_conv')

lemma dict_getitem_Inr: "dict_getitem k d = Inr v \<longleftrightarrow> map_of d k = Some v"
  by (simp add: dict_getitem_def split: option.splits)

lemma dict_delitem_Inr:
  "dict_delitem k d = Inr d' \<longleftrightarrow> map_of d k \<noteq> None \<and> d' = AList.delete k d"
  by (auto simp: dict_delitem_def map_of_eq_None_iff)

lemma map_of_delete: "map_of (AList.delete k d) = (map_of d)(k := None)"
  by (simp add: delete_conv')

lemma on_ok_Inr: "on_ok r h f = (Inr u, h') \<longleftrightarrow> (\<exists>v. r = Inr v \<and> f v = (Inr u, h'))"
  by (cases r) (simp_all add: on_ok_def)

lemma exclude_record_Inr:
  "exclude_record ks d = (Inr u, d') \<Longrightarrow>
     map_of d' = (\<lambda>k. if k \<in> set ks then None else map_of d k) \<and> (\<forall>k \<in> set ks. map_of d k \<noteq> None)"
proof (induction ks arbitrary: d)
  case Nil
  then show ?case by simp
next
  case (Cons k ks)
  from Cons.prems obtain d1 where d1: "dict_delitem k d = Inr d1"
    and rest: "exclude_record ks d1 = (Inr u, d')"
    by (auto simp: on_ok_Inr)
  from d1 have k: "map_of d k \<noteq> None" and m1: "map_of d1 = (map_of d)(k := None)"
    by (simp_all add: dict_delitem_Inr map_of_delete)
  from Cons.IH[OF rest] have a: "map_of d' = (\<lambda>k. if k \<in> set ks then None else map_of d1 k)"
    and b: "\<forall>k \<in> set ks. map_of d1 k \<noteq> None" by simp_all
  have "map_of d' = (\<lambda>x. if x \<in> set (k # ks) then None else map_of d x)"
    unfolding a m1 by (auto simp: fun_eq_iff)
  moreover have "\<forall>x \<in> set (k # ks). map_of d x \<noteq> None"
    using b k unfolding m1 by (auto split: if_splits)
  ultimately show ?case by simp
qed

text \<open>What a turn that does not raise went through.\<close>

lemma transform_record_Inr:
  assumes "transform_record lib ex lb ip t d = (Inr u, d')"
  shows "\<exists>rb tot imm d3 st stj str em emj emr.
      map_of d ''regblock'' = Some rb \<and>
      py_add lib rb (PInt ip) = Inr tot \<and>
      py_gt lib tot (PInt lb) = Inr imm \<and>
      exclude_record ex (dict_setitem ''in_immunity'' imm d) = (Inr (), d3) \<and>
      map_of d3 ''stake'' = Some st \<and> from_nano lib st = Inr stj \<and> round_ndigits lib stj 2 = Inr str \<and>
      map_of (dict_setitem ''stake'' str d3) ''emission'' = Some em \<and>
      from_horus lib em t = Inr emj \<and> round_ndigits lib emj 4 = Inr emr \<and>
      (let d5 = dict_setitem ''emission'' emr (dict_setitem ''stake'' str d3) in
         (if dict_get ''balance'' d5 \<noteq> PNone
          then \<exists>b bj. map_of d5 ''balance'' = Some b \<and> from_nano lib b = Inr bj \<and>
                 d' = dict_setitem ''balance'' bj d5
          else map_of d5 ''balance'' \<noteq> None \<and> d' = AList.delete ''balance'' d5))"
  using assms unfolding transform_record_def Let_def
  apply (clarsimp simp: on_ok_Inr dict_getitem_Inr)
  subgoal for rb tot imm
    apply (cases "exclude_record ex (dict_setitem ''in_immunity'' imm d)")
    subgoal for r d3
      apply (cases r)
       apply simp
      apply (auto simp: on_ok_Inr dict_getitem_Inr dict_delitem_Inr split: if_splits)
      done
    done
  done

lemma transform_record_in_immunity:
  assumes "transform_record lib ex lb ip t d = (Inr u, d')"
    and "map_of d ''regblock'' = Some (PInt r)"
    and "''in_immunity'' \<notin> set ex"
  shows "map_of d' ''in_immunity'' = Some (PBool (lb < r + ip))"
proof -
  from transform_record_Inr[OF assms(1)] obtain rb tot imm d3 st stj str em emj emr where
    rb: "map_of d ''regblock'' = Some rb" and tot: "py_add lib rb (PInt ip) = Inr tot"
    and imm: "py_gt lib tot (PInt lb) = Inr imm"
    and d3: "exclude_record ex (dict_setitem ''in_immunity'' imm d) = (Inr (), d3)"
    and fin: "let d5 = dict_setitem ''emission'' emr (dict_setitem ''stake'' str d3) in
         (if dict_get ''balance'' d5 \<noteq> PNone
          then \<exists>b bj. map_of d5 ''balance'' = Some b \<and> from_nano lib b = Inr bj \<and>
                 d' = dict_setitem ''balance'' bj d5
          else map_of d5 ''balance'' \<noteq> None \<and> d' = AList.delete ''balance'' d5)"
    by blast
  from rb assms(2) tot imm have "imm = PBool (lb < r + ip)"
    by (auto simp: py_add_def py_gt_def)
  moreover from exclude_record_Inr[OF d3] assms(3)
  have "map_of d3 ''in_immunity'' = Some imm"
    by (simp add: map_of_setitem)
  ultimately show ?thesis
    using fin by (auto simp: Let_def map_of_setitem map_of_delete split: if_splits)
qed

lemma transform_record_balance:
  assumes "transform_record lib ex lb ip t d = (Inr u, d')"
  shows "map_of d ''balance'' \<noteq> None \<and>
         (map_of d ''balance'' = Some PNone \<longrightarrow> ''balance'' \<notin> set (keys d')) \<and>
         (\<forall>v. map_of d ''balance'' = Some v \<and> v \<noteq> PNone \<longrightarrow>
            (\<exists>w. from_nano lib v = Inr w \<and> map_of d' ''balance'' = Some w))"
proof -
  from transform_record_Inr[OF assms(1)] obtain rb tot imm d3 st stj str em emj emr where
    d3: "exclude_record ex (dict_setitem ''in_immunity'' imm d) = (Inr (), d3)"
    and fin: "let d5 = dict_setitem ''emission'' emr (dict_setitem ''stake'' str d3) in
         (if dict_get ''balance'' d5 \<noteq> PNone
          then \<exists>b bj. map_of d5 ''balance'' = Some b \<and> from_nano lib b = Inr bj \<and>
                 d' = dict_setitem ''balance'' bj d5
          else map_of d5 ''balance'' \<noteq> None \<and> d' = AList.delete ''balance'' d5)"
    by blast
  define d5 where "d5 = dict_setitem ''emission'' emr (dict_setitem ''stake'' str d3)"
  have m5: "map_of d5 ''balance'' = map_of d3 ''balance''"
    by (simp add: d5_def map_of_setitem)
  have m3: "map_of d3 ''balance'' = (if ''balance'' \<in> set ex then None else map_of d ''balance'')"
    using exclude_record_Inr[OF d3] by (simp add: map_of_setitem)
  have present: "map_of d5 ''balance'' \<noteq> None"
    using fin unfolding d5_def[symmetric] Let_def by (auto split: if_splits)
  with m5 m3 have same: "map_of d5 ''balance'' = map_of d ''balance''"
    and pres: "map_of d ''balance'' \<noteq> None"
    by (auto split: if_splits)
  have gone: "''balance'' \<notin> set (keys d')" if "map_of d ''balance'' = Some PNone"
  proof -
    have "dict_get ''balance'' d5 = PNone" using that same by (simp add: dict_get_def)
    with fin have "d' = AList.delete ''balance'' d5"
      unfolding d5_def[symmetric] Let_def by simp
    then show ?thesis by (simp add: keys_def delete_keys)
  qed
  have conv: "\<exists>w. from_nano lib v = Inr w \<and> map_of d' ''balance'' = Some w"
    if "map_of d ''balance'' = Some v" "v \<noteq> PNone" for v
  proof -
    have "dict_get ''balance'' d5 \<noteq> PNone" using that same by (simp add: dict_get_def)
    with fin obtain b bj where "map_of d5 ''balance'' = Some b" "from_nano lib b = Inr bj"
      "d' = dict_setitem ''balance'' bj d5"
      unfolding d5_def[symmetric] Let_def by auto
    with that same show ?thesis by (simp add: map_of_setitem)
  qed
  from pres gone conv show ?thesis by blast
qed

section \<open>The loop over the batch\<close>

lemma transform_loop_extends:
  "\<exists>ds. snd (transform_loop lib ex lb ip t ms acc h) = h @ ds"
proof (induction ms arbitrary: acc h)
  case Nil
  then show ?case by simp
next
  case (Cons m ms)
  obtain r d where tr: "transform_record lib ex lb ip t (h ! m) = (r, d)"
    by (cases "transform_record lib ex lb ip t (h ! m)")
  show ?case
  proof (cases r)
    case (Inl e)
    then show ?thesis by (simp add: transform_step_record tr)
  next
    case (Inr u)
    from Cons.IH[of "acc @ [length h]" "h @ [d]"] obtain ds where
      "snd (transform_loop lib ex lb ip t ms (acc @ [length h]) (h @ [d])) = (h @ [d]) @ ds"
      by blast
    then show ?thesis by (simp add: transform_step_record tr Inr)
  qed
qed

lemma transform_loop_success:
  assumes "\<forall>m \<in> set ms. m < length h"
    and "\<forall>m \<in> set ms. fst (transform_record lib ex lb ip t (h ! m)) = Inr ()"
  shows "transform_loop lib ex lb ip t ms acc h =
           (Inr (acc @ [length h..<length h + length ms]),
            h @ map (\<lambda>m. snd (transform_record lib ex lb ip t (h ! m))) ms)"
  using assms
proof (induction ms arbitrary: acc h)
  case Nil
  then show ?case by simp
next
  case (Cons m ms)
  obtain d where tr: "transform_record lib ex lb ip t (h ! m) = (Inr (), d)"
    using Cons.prems(2) by (cases "transform_record lib ex lb ip t (h ! m)") auto
  have valid: "\<forall>m' \<in> set ms. m' < length (h @ [d])"
    using Cons.prems(1) by auto
  have same: "(h @ [d]) ! m' = h ! m'" if "m' \<in> set ms" for m'
    using Cons.prems(1) that by (simp add: nth_append)
  have ok: "\<forall>m' \<in> set ms. fst (transform_record lib ex lb ip t ((h @ [d]) ! m')) = Inr ()"
    using Cons.prems(2) same by simp
  have maps: "map (\<lambda>m'. snd (transform_record lib ex lb ip t ((h @ [d]) ! m'))) ms
            = map (\<lambda>m'. snd (transform_record lib ex lb ip t (h ! m'))) ms"
    using same by (intro map_cong) simp_all
  have up: "[length h..<length h + length (m # ms)]
      = length h # [Suc (length h)..<length h + length (m # ms)]"
    by (rule upt_conv_Cons) simp
  have idx: "(acc @ [length h]) @ [length (h @ [d])..<length (h @ [d]) + length ms]
           = acc @ [length h..<length h + length (m # ms)]"
    unfolding up by simp
  have heap: "(h @ [d]) @ map (\<lambda>m'. snd (transform_record lib ex lb ip t ((h @ [d]) ! m'))) ms
            = h @ map (\<lambda>m'. snd (transform_record lib ex lb ip t (h ! m'))) (m # ms)"
    unfolding maps by (simp add: tr)
  have "transform_loop lib ex lb ip t (m # ms) acc h
      = transform_loop lib ex lb ip t ms (acc @ [length h]) (h @ [d])"
    by (simp add: transform_step_record tr)
  also have "\<dots> = (Inr ((acc @ [length h]) @ [length (h @ [d])..<length (h @ [d]) + length ms]),
      (h @ [d]) @ map (\<lambda>m'. snd (transform_record lib ex lb ip t ((h @ [d]) ! m'))) ms)"
    by (rule Cons.IH[OF valid ok])
  finally show ?case
    unfolding idx heap .
qed

lemma transform_loop_Inr:
  assumes "\<forall>m \<in> set ms. m < length h"
    and "fst (transform_loop lib ex lb ip t ms acc h) = Inr outs"
  shows "\<forall>m \<in> set ms. fst (transform_record lib ex lb ip t (h ! m)) = Inr ()"
  using assms
proof (induction ms arbitrary: acc h)
  case Nil
  then show ?case by simp
next
  case (Cons m ms)
  obtain r d where tr: "transform_record lib ex lb ip t (h ! m) = (r, d)"
    by (cases "transform_record lib ex lb ip t (h ! m)")
  show ?case
  proof (cases r)
    case (Inl e)
    with Cons.prems(2) show ?thesis by (simp add: transform_step_record tr)
  next
    case (Inr u)
    have valid: "\<forall>m' \<in> set ms. m' < length (h @ [d])"
      using Cons.prems(1) by auto
    have same: "(h @ [d]) ! m' = h ! m'" if "m' \<in> set ms" for m'
      using Cons.prems(1) that by (simp add: nth_append)
    from Cons.prems(2) have
      "fst (transform_loop lib ex lb ip t ms (acc @ [length h]) (h @ [d])) = Inr outs"
      by (simp add: transform_step_record tr Inr)
    from Cons.IH[OF valid this] same
    have "\<forall>m' \<in> set ms. fst (transform_record lib ex lb ip t (h ! m')) = Inr ()"
      by simp
    then show ?thesis by (simp add: tr Inr)
  qed
qed

text \<open>
  A batch that does not raise: the results are the new objects, one per input in order,
  and the \<open>i\<close>-th holds what one turn makes of the \<open>i\<close>-th input record.
\<close>

lemma transform_module_into_Inr:
  assumes valid: "\<forall>m \<in> set ms. m < length h"
    and run: "transform_module_into lib ex lb ip ms t h = (Inr outs, h')"
  shows "outs = [length h..<length h + length ms]"
    and "h' = h @ map (\<lambda>m. snd (transform_record lib ex lb ip t (h ! m))) ms"
    and "\<forall>m \<in> set ms. fst (transform_record lib ex lb ip t (h ! m)) = Inr ()"
proof -
  from run have "fst (transform_loop lib ex lb ip t ms [] h) = Inr outs"
    by (simp add: transform_module_into_def)
  from transform_loop_Inr[OF valid this]
  show ok: "\<forall>m \<in> set ms. fst (transform_record lib ex lb ip t (h ! m)) = Inr ()" .
  from transform_loop_success[OF valid ok, of "[]"] run
  show "outs = [length h..<length h + length ms]"
    and "h' = h @ map (\<lambda>m. snd (transform_record lib ex lb ip t (h ! m))) ms"
    by (simp_all add: transform_module_into_def)
qed

lemma transform_module_into_nth:
  assumes valid: "\<forall>m \<in> set ms. m < length h"
    and run: "transform_module_into lib ex lb ip ms t h = (Inr outs, h')"
    and i: "i < length ms"
  shows "length outs = length ms"
    and "outs ! i = length h + i"
    and "transform_record lib ex lb ip t (h ! (ms ! i)) = (Inr (), h' ! (outs ! i))"
proof -
  note R = transform_module_into_Inr[OF valid run]
  show "length outs = length ms" by (simp add: R(1))
  show o: "outs ! i = length h + i" using i by (simp add: R(1))
  have "h' ! (outs ! i) = snd (transform_record lib ex lb ip t (h ! (ms ! i)))"
    using i by (simp add: o R(2) nth_append)
  moreover have "fst (transform_record lib ex lb ip t (h ! (ms ! i))) = Inr ()"
    using R(3) i by simp
  ultimately show "transform_record lib ex lb ip t (h ! (ms ! i)) = (Inr (), h' ! (outs ! i))"
    by (simp add: prod_eq_iff)
qed

section \<open>Properties of transform_module_into\<close>

lemma transform_module_into_single:
  "transform_module_into lib ex lb ip [m] t h =
     (case transform_record lib ex lb ip t (h ! m) of
        (r, d) \<Rightarrow> (case r of Inl e \<Rightarrow> Inl e | Inr _ \<Rightarrow> Inr [length h], h @ [d]))"
  by (simp add: transform_module_into_def transform_step_record split: prod.splits sum.splits)

text \<open>Concrete runs with the exact library.\<close>

lemma run_a_140:
  "transform_module_into exact_lib excluded 140 50 [0] 100 [module_a] =
     (Inr [1],
      [module_a,
       [(''uid'', PInt 0), (''name'', PStr ''alpha''), (''stake'', PFloat (3 / 2)),
        (''emission'', PFloat (1 / 50)), (''in_immunity'', PBool True)]])"
  by code_simp

lemma run_a_200:
  "transform_module_into exact_lib excluded 200 50 [0] 100 [module_a] =
     (Inr [1],
      [module_a,
       [(''uid'', PInt 0), (''name'', PStr ''alpha''), (''stake'', PFloat (3 / 2)),
        (''emission'', PFloat (1 / 50)), (''in_immunity'', PBool False)]])"
  by code_simp

lemma run_ab_140:
  "transform_module_into exact_lib excluded 140 50 [0, 1] 100 [module_a, module_b] =
     (Inr [2, 3],
      [module_a, module_b,
       [(''uid'', PInt 0), (''name'', PStr ''alpha''), (''stake'', PFloat (3 / 2)),
        (''emission'', PFloat (1 / 50)), (''in_immunity'', PBool True)],
       [(''uid'', PInt 1), (''name'', PStr ''beta''), (''stake'', PFloat (5 / 2)),
        (''emission'', PFloat 0), (''balance'', PFloat 5), (''in_immunity'', PBool True)]])"
  by code_simp

lemma run_bd_200:
  "transform_module_into exact_lib excluded 200 50 [0, 1] 100 [module_b, module_d] =
     (Inr [2, 3],
      [module_b, module_d,
       [(''uid'', PInt 1), (''name'', PStr ''beta''), (''stake'', PFloat (5 / 2)),
        (''emission'', PFloat 0), (''balance'', PFloat 5), (''in_immunity'', PBool False)],
       [(''uid'', PInt 3), (''stake'', PFloat (5 / 2)),
        (''emission'', PFloat 0), (''balance'', PFloat 7), (''in_immunity'', PBool False)]])"
  by code_simp

lemma run_b_alone:
  "fst (transform_module_into exact_lib excluded 200 50 [0] 100 [module_b, module_d]) = Inr [2]"
  by code_simp

lemma run_d_alone:
  "fst (transform_module_into exact_lib excluded 200 50 [1] 100 [module_b, module_d]) = Inr [2]"
  by code_simp

lemma run_ab_tempo_0:
  "fst (transform_module_into exact_lib excluded 140 50 [0, 1] 0 [module_a, module_b])
     = Inl ZeroDivisionError"
  by code_simp

text \<open>
  C3. For a batch that is normalized without an exception, and a record of it whose
  \<^verbatim>\<open>regblock\<close> is an integer, the normalized record has \<^verbatim>\<open>in_immunity\<close> equal to
  \<^verbatim>\<open>regblock + immunity_period > last_block\<close>, provided \<^verbatim>\<open>in_immunity\<close> is not itself
  among the fields to exclude. The references of the batch point into the store.
\<close>

theorem transform_module_into_in_immunity:
  assumes "\<forall>m \<in> set modules. m < length h"
    and "transform_module_into lib to_exclude last_block immunity_period modules tempo h = (Inr outs, h')"
    and "i < length modules"
    and "map_of (h ! (modules ! i)) ''regblock'' = Some (PInt regblock)"
    and "''in_immunity'' \<notin> set to_exclude"
  shows "length outs = length modules
       \<and> map_of (h' ! (outs ! i)) ''in_immunity''
           = Some (PBool (regblock + immunity_period > last_block))"
proof -
  note N = transform_module_into_nth[OF assms(1) assms(2) assms(3)]
  from transform_record_in_immunity[OF N(3) assms(4) assms(5)] N(1)
  show ?thesis by simp
qed

theorem transform_module_into_in_immunity_witness:
  "(0::nat) < length [module_a]
   \<and> map_of ([module_a] ! ([0] ! 0)) ''regblock'' = Some (PInt 100)
   \<and> ''in_immunity'' \<notin> set excluded
   \<and> fst (transform_module_into exact_lib excluded 140 50 [0] 100 [module_a]) = Inr [1]
   \<and> map_of (snd (transform_module_into exact_lib excluded 140 50 [0] 100 [module_a]) ! 1) ''in_immunity''
       = Some (PBool True)
   \<and> fst (transform_module_into exact_lib excluded 200 50 [0] 100 [module_a]) = Inr [1]
   \<and> map_of (snd (transform_module_into exact_lib excluded 200 50 [0] 100 [module_a]) ! 1) ''in_immunity''
       = Some (PBool False)"
proof -
  have valid: "\<forall>m \<in> set [0]. m < length [module_a]" by simp
  have reg: "map_of ([module_a] ! ([0] ! 0)) ''regblock'' = Some (PInt 100)"
    by (simp add: module_a_def)
  have ex: "''in_immunity'' \<notin> set excluded" by (simp add: excluded_def)
  have i: "(0::nat) < length [0::nat]" by simp
  from transform_module_into_in_immunity[OF valid run_a_140 i reg ex]
  have a: "map_of (snd (transform_module_into exact_lib excluded 140 50 [0] 100 [module_a]) ! 1)
      ''in_immunity'' = Some (PBool True)" by (simp add: run_a_140)
  from transform_module_into_in_immunity[OF valid run_a_200 i reg ex]
  have b: "map_of (snd (transform_module_into exact_lib excluded 200 50 [0] 100 [module_a]) ! 1)
      ''in_immunity'' = Some (PBool False)" by (simp add: run_a_200)
  have f1: "fst (transform_module_into exact_lib excluded 140 50 [0] 100 [module_a]) = Inr [1]"
    by (simp add: run_a_140)
  have f2: "fst (transform_module_into exact_lib excluded 200 50 [0] 100 [module_a]) = Inr [1]"
    by (simp add: run_a_200)
  have v0: "(0::nat) < length [module_a]" by simp
  from v0 reg ex f1 a f2 b show ?thesis by (intro conjI)
qed

text \<open>
  C4. In a batch that is normalized without an exception, a record that lacks a balance
  value (\<^verbatim>\<open>module.get("balance")\<close> is \<^verbatim>\<open>None\<close>) gives a normalized record with no
  \<^verbatim>\<open>balance\<close> key at all, not a key with a null value; a record whose balance is
  present, zero included, gives a normalized record whose balance is \<^verbatim>\<open>from_nano\<close> of it.
\<close>

theorem transform_module_into_balance:
  assumes "\<forall>m \<in> set modules. m < length h"
    and "transform_module_into lib to_exclude last_block immunity_period modules tempo h = (Inr outs, h')"
    and "i < length modules"
  shows "(dict_get ''balance'' (h ! (modules ! i)) = PNone \<longrightarrow>
            ''balance'' \<notin> set (keys (h' ! (outs ! i))) \<and> map_of (h' ! (outs ! i)) ''balance'' = None)
       \<and> (\<forall>v. map_of (h ! (modules ! i)) ''balance'' = Some v \<and> v \<noteq> PNone \<longrightarrow>
            (\<exists>w. from_nano lib v = Inr w \<and> map_of (h' ! (outs ! i)) ''balance'' = Some w))"
proof -
  let ?d = "h ! (modules ! i)" and ?d' = "h' ! (outs ! i)"
  note B = transform_record_balance[OF transform_module_into_nth(3)[OF assms]]
  have "''balance'' \<notin> set (keys ?d') \<and> map_of ?d' ''balance'' = None"
    if "dict_get ''balance'' ?d = PNone"
  proof -
    from B have "map_of ?d ''balance'' \<noteq> None" by (rule conjunct1)
    with that have "map_of ?d ''balance'' = Some PNone"
      by (auto simp: dict_get_def split: option.splits)
    with B have gone: "''balance'' \<notin> set (keys ?d')" by blast
    then have "map_of ?d' ''balance'' = None"
      by (simp add: keys_def map_of_eq_None_iff)
    with gone show ?thesis by (intro conjI)
  qed
  with B show ?thesis by blast
qed

theorem transform_module_into_balance_witness:
  "(0::nat) < length [module_a, module_b] \<and> (1::nat) < length [module_a, module_b]
   \<and> fst (transform_module_into exact_lib excluded 140 50 [0, 1] 100 [module_a, module_b]) = Inr [2, 3]
   \<and> dict_get ''balance'' module_a = PNone
   \<and> ''balance'' \<notin> set (keys (snd (transform_module_into exact_lib excluded 140 50 [0, 1] 100
                                     [module_a, module_b]) ! 2))
   \<and> map_of module_b ''balance'' = Some (PInt 5000000000)
   \<and> map_of (snd (transform_module_into exact_lib excluded 140 50 [0, 1] 100 [module_a, module_b]) ! 3)
        ''balance'' = Some (PFloat 5)"
proof -
  let ?run = "transform_module_into exact_lib excluded 140 50 [0, 1] 100 [module_a, module_b]"
  have valid: "\<forall>m \<in> set [0, 1]. m < length [module_a, module_b]" by simp
  have f: "fst ?run = Inr [2, 3]" by (simp add: run_ab_140[unfolded One_nat_def])
  have ba: "dict_get ''balance'' module_a = PNone" by (simp add: module_a_def dict_get_def)
  have bb: "map_of module_b ''balance'' = Some (PInt 5000000000)" by (simp add: module_b_def)
  have i0: "(0::nat) < length [0, 1::nat]" and i1: "(1::nat) < length [0, 1::nat]" by simp_all
  from transform_module_into_balance[OF valid run_ab_140 i0] ba
  have a: "''balance'' \<notin> set (keys (snd ?run ! 2))" by (simp add: run_ab_140[unfolded One_nat_def])
  from transform_module_into_balance[OF valid run_ab_140 i1] bb
  have b: "map_of (snd ?run ! 3) ''balance'' = Some (PFloat 5)" by (simp add: run_ab_140[unfolded One_nat_def])
  have v0: "(0::nat) < length [module_a, module_b]" and v1: "(1::nat) < length [module_a, module_b]"
    by simp_all
  from v0 v1 f ba a bb b show ?thesis by (intro conjI)
qed

text \<open>
  C5 as stated fails: no turn of the loop looks at another record. Here one record has
  a \<^verbatim>\<open>name\<close> key and the other has none; the batch is normalized and the two results
  have different key sets.
\<close>

theorem transform_module_into_mixed_keys_counterexample:
  "fst (transform_module_into exact_lib excluded 200 50 [0, 1] 100 [module_b, module_d]) = Inr [2, 3]
   \<and> set (keys (snd (transform_module_into exact_lib excluded 200 50 [0, 1] 100 [module_b, module_d]) ! 2))
     \<noteq> set (keys (snd (transform_module_into exact_lib excluded 200 50 [0, 1] 100 [module_b, module_d]) ! 3))"
proof -
  let ?run = "transform_module_into exact_lib excluded 200 50 [0, 1] 100 [module_b, module_d]"
  have f: "fst ?run = Inr [2, 3]"
    by (simp add: run_bd_200[unfolded One_nat_def])
  have "''name'' \<in> set (keys (snd ?run ! 2))" and "''name'' \<notin> set (keys (snd ?run ! 3))"
    by (simp_all add: run_bd_200[unfolded One_nat_def] keys_def)
  then have "set (keys (snd ?run ! 2)) \<noteq> set (keys (snd ?run ! 3))" by blast
  with f show ?thesis by (intro conjI)
qed

text \<open>
  C5, amended. The transformer makes no comparison between records: a batch is
  normalized without an exception exactly when each of its records is, taken alone, and
  each result is then the result that record has when it is normalized alone, whatever
  the key sets of the other results.
\<close>

theorem transform_module_into_record_by_record:
  assumes "\<forall>m \<in> set modules. m < length h"
  shows "((\<exists>outs. fst (transform_module_into lib ex lb ip modules t h) = Inr outs)
          \<longleftrightarrow> (\<forall>m \<in> set modules. \<exists>out. fst (transform_module_into lib ex lb ip [m] t h) = Inr out))
       \<and> (\<forall>outs i. fst (transform_module_into lib ex lb ip modules t h) = Inr outs \<and> i < length modules
            \<longrightarrow> length outs = length modules
              \<and> snd (transform_module_into lib ex lb ip modules t h) ! (outs ! i)
                  = snd (transform_module_into lib ex lb ip [modules ! i] t h) ! length h)"
proof -
  have single: "(\<exists>out. fst (transform_module_into lib ex lb ip [m] t h) = Inr out)
      \<longleftrightarrow> fst (transform_record lib ex lb ip t (h ! m)) = Inr ()" for m
    by (auto simp: transform_module_into_single split: prod.splits sum.splits)
  have single_snd: "snd (transform_module_into lib ex lb ip [m] t h) ! length h
      = snd (transform_record lib ex lb ip t (h ! m))" for m
    by (simp add: transform_module_into_single split: prod.splits)
  have "\<forall>m \<in> set modules. fst (transform_record lib ex lb ip t (h ! m)) = Inr ()"
    if "fst (transform_module_into lib ex lb ip modules t h) = Inr outs" for outs
    using transform_loop_Inr[OF assms] that by (simp add: transform_module_into_def)
  moreover have "\<exists>outs. fst (transform_module_into lib ex lb ip modules t h) = Inr outs"
    if "\<forall>m \<in> set modules. fst (transform_record lib ex lb ip t (h ! m)) = Inr ()"
    using transform_loop_success[OF assms that, of "[]"] by (simp add: transform_module_into_def)
  ultimately have iff: "(\<exists>outs. fst (transform_module_into lib ex lb ip modules t h) = Inr outs)
      \<longleftrightarrow> (\<forall>m \<in> set modules. \<exists>out. fst (transform_module_into lib ex lb ip [m] t h) = Inr out)"
    unfolding single by blast
  have each: "length outs = length modules
      \<and> snd (transform_module_into lib ex lb ip modules t h) ! (outs ! i)
          = snd (transform_module_into lib ex lb ip [modules ! i] t h) ! length h"
    if "fst (transform_module_into lib ex lb ip modules t h) = Inr outs" "i < length modules"
    for outs i
  proof -
    have run: "transform_module_into lib ex lb ip modules t h
        = (Inr outs, snd (transform_module_into lib ex lb ip modules t h))"
      using that(1) by (simp add: prod_eq_iff)
    note N = transform_module_into_nth[OF assms run that(2)]
    from N(3) have "snd (transform_record lib ex lb ip t (h ! (modules ! i)))
        = snd (transform_module_into lib ex lb ip modules t h) ! (outs ! i)" by simp
    with N(1) show ?thesis by (simp add: single_snd)
  qed
  from iff each show ?thesis by blast
qed

theorem transform_module_into_record_by_record_witness:
  "(0::nat) < length [module_b, module_d] \<and> (1::nat) < length [module_b, module_d]
   \<and> fst (transform_module_into exact_lib excluded 200 50 [0] 100 [module_b, module_d]) = Inr [2]
   \<and> fst (transform_module_into exact_lib excluded 200 50 [1] 100 [module_b, module_d]) = Inr [2]
   \<and> (\<exists>outs. fst (transform_module_into exact_lib excluded 200 50 [0, 1] 100 [module_b, module_d]) = Inr outs)"
proof -
  have valid: "\<forall>m \<in> set [0, 1]. m < length [module_b, module_d]" by simp
  have f0: "fst (transform_module_into exact_lib excluded 200 50 [0] 100 [module_b, module_d]) = Inr [2]"
    by (simp add: run_b_alone)
  have f1: "fst (transform_module_into exact_lib excluded 200 50 [1] 100 [module_b, module_d]) = Inr [2]"
    by (simp add: run_d_alone[unfolded One_nat_def])
  have "\<forall>m \<in> set [0, 1]. \<exists>out.
      fst (transform_module_into exact_lib excluded 200 50 [m] 100 [module_b, module_d]) = Inr out"
    using f0 f1 by simp
  with transform_module_into_record_by_record[OF valid, of exact_lib excluded 200 50 100, THEN conjunct1]
  have "\<exists>outs. fst (transform_module_into exact_lib excluded 200 50 [0, 1] 100 [module_b, module_d]) = Inr outs"
    by (rule iffD2)
  moreover have "(0::nat) < length [module_b, module_d]" and "(1::nat) < length [module_b, module_d]"
    by simp_all
  ultimately show ?thesis using f0 f1 by (intro conjI)
qed

text \<open>
  C10. Whatever the call does, and also when it raises, every dictionary object that
  was in the store before the call is the same after it; so is every input record. All
  writes go to the copies, which are new objects.
\<close>

theorem transform_module_into_keeps_inputs:
  "take (length h) (snd (transform_module_into lib ex lb ip modules t h)) = h
   \<and> (\<forall>m \<in> set modules. m < length h \<longrightarrow>
        snd (transform_module_into lib ex lb ip modules t h) ! m = h ! m)"
proof -
  from transform_loop_extends[of lib ex lb ip t modules "[]" h] obtain ds where
    "snd (transform_module_into lib ex lb ip modules t h) = h @ ds"
    by (auto simp: transform_module_into_def)
  then show ?thesis by (simp add: nth_append)
qed

theorem transform_module_into_keeps_inputs_witness:
  "(0::nat) \<in> set [0, 1] \<and> (0::nat) < length [module_a, module_b]
   \<and> (1::nat) \<in> set [0, 1] \<and> (1::nat) < length [module_a, module_b]
   \<and> fst (transform_module_into exact_lib excluded 140 50 [0, 1] 0 [module_a, module_b])
       = Inl ZeroDivisionError
   \<and> snd (transform_module_into exact_lib excluded 140 50 [0, 1] 0 [module_a, module_b]) ! 0 = module_a
   \<and> snd (transform_module_into exact_lib excluded 140 50 [0, 1] 0 [module_a, module_b]) ! 1 = module_b
   \<and> snd (transform_module_into exact_lib excluded 140 50 [0, 1] 100 [module_a, module_b]) ! 0 = module_a
   \<and> snd (transform_module_into exact_lib excluded 140 50 [0, 1] 100 [module_a, module_b]) ! 1 = module_b"
proof -
  note K1 = transform_module_into_keeps_inputs[of "[module_a, module_b]" exact_lib excluded 140 50
      "[0, 1]" 0, THEN conjunct2]
  note K2 = transform_module_into_keeps_inputs[of "[module_a, module_b]" exact_lib excluded 140 50
      "[0, 1]" 100, THEN conjunct2]
  from K1 K2 run_ab_tempo_0[unfolded One_nat_def] show ?thesis by simp
qed

section \<open>Properties of com_client\<close>

lemma constructor_calls_status_update [simp]:
  "constructor_calls (status_update msg w) = constructor_calls w"
  by (simp add: status_update_def)

text \<open>While every attempt raises, the loop leaves the context alone and counts one call per turn.\<close>

lemma connect_loop_all_fail:
  assumes "\<forall>i<length xs. isl (CommuneClient (constructor_calls w + i) url 1 False)"
  shows "fst (connect_loop CommuneClient url xs self w) = self
       \<and> constructor_calls (snd (connect_loop CommuneClient url xs self w))
           = constructor_calls w + length xs"
  using assms
proof (induction xs arbitrary: w)
  case Nil
  then show ?case by simp
next
  case (Cons current rest)
  have "isl (CommuneClient (constructor_calls w + 0) url 1 False)"
    using Cons.prems[rule_format, of 0] by simp
  then obtain e where e: "CommuneClient (constructor_calls w) url 1 False = Inl e"
    by (cases "CommuneClient (constructor_calls w) url 1 False") simp_all
  define w' where "w' = status_update
      (''Connecting to node '' @ url @ '' ('' @ str_nat current @ ''/5 retries)...'')
      ((status_update (''Connecting to node '' @ url @ ''...'') w)
         \<lparr>constructor_calls := Suc (constructor_calls w)\<rparr>)"
  have calls: "constructor_calls w' = Suc (constructor_calls w)"
    by (simp add: w'_def)
  have step: "connect_loop CommuneClient url (current # rest) self w
      = connect_loop CommuneClient url rest self w'"
    by (simp add: Let_def e[unfolded One_nat_def] w'_def)
  have "\<forall>i<length rest. isl (CommuneClient (constructor_calls w' + i) url 1 False)"
  proof (intro allI impI)
    fix i assume "i < length rest"
    then have "Suc i < length (current # rest)" by simp
    then have "isl (CommuneClient (constructor_calls w + Suc i) url 1 False)"
      by (rule Cons.prems[rule_format])
    then show "isl (CommuneClient (constructor_calls w' + i) url 1 False)"
      by (simp add: calls)
  qed
  from Cons.IH[OF this] show ?case
    unfolding step by (simp add: calls)
qed

lemma upt_1_6: "[1..<6] = [1, 2, 3, 4, 5 :: nat]"
  by (simp add: upt_rec)

text \<open>
  C1 as stated fails: the exception's message is a fixed text and does not hold the
  node URL.
\<close>

theorem com_client_message_counterexample:
  "fst (com_client demo_node_url failing_client fresh_ctx fresh_world)
     = Inl (ConnectionError ''Could not connect to any node'')
   \<and> \<not> sublist (demo_node_url (use_testnet fresh_ctx)) ''Could not connect to any node''"
proof -
  have "fst (com_client demo_node_url failing_client fresh_ctx fresh_world)
      = Inl (ConnectionError ''Could not connect to any node'')"
    by code_simp
  moreover have "\<not> sublist (demo_node_url (use_testnet fresh_ctx)) ''Could not connect to any node''"
    by code_simp
  ultimately show ?thesis by (intro conjI)
qed

text \<open>
  C1, amended. When the context has no connection yet and each of the five construction
  attempts raises, \<^verbatim>\<open>com_client\<close> raises \<^verbatim>\<open>ConnectionError\<close> with the message
  \<^verbatim>\<open>Could not connect to any node\<close>, whatever the node URL is.
\<close>

theorem com_client_all_attempts_fail:
  assumes "com_client_field self = None"
    and "\<forall>i<5. isl (CommuneClient (constructor_calls w + i) (get_node_url (use_testnet self)) 1 False)"
  shows "fst (com_client get_node_url CommuneClient self w)
           = Inl (ConnectionError ''Could not connect to any node'')"
proof -
  let ?url = "get_node_url (use_testnet self)"
  have "\<forall>i<length [1..<6]. isl (CommuneClient (constructor_calls w + i) ?url 1 False)"
    using assms(2) by simp
  from connect_loop_all_fail[where xs = "[1..<6]" and CommuneClient = CommuneClient and w = w
      and url = "get_node_url (use_testnet self)" and self = self, OF this]
  have "com_client_field (fst (connect_loop CommuneClient ?url [1..<6] self w)) = None"
    using assms(1) by simp
  then show ?thesis
    using assms(1) by (simp add: com_client_def Let_def case_prod_beta)
qed

theorem com_client_all_attempts_fail_witness:
  "com_client_field fresh_ctx = None
   \<and> isl (failing_client (constructor_calls fresh_world + 0) (demo_node_url (use_testnet fresh_ctx)) 1 False)
   \<and> isl (failing_client (constructor_calls fresh_world + 4) (demo_node_url (use_testnet fresh_ctx)) 1 False)
   \<and> fst (com_client demo_node_url failing_client fresh_ctx fresh_world)
       = Inl (ConnectionError ''Could not connect to any node'')"
proof -
  have none: "com_client_field fresh_ctx = None" by (simp add: fresh_ctx_def)
  have fails: "isl (failing_client n url c f)" for n url c f
    by (simp add: failing_client_def)
  then have "\<forall>i<5. isl (failing_client (constructor_calls fresh_world + i)
      (demo_node_url (use_testnet fresh_ctx)) 1 False)" by simp
  from com_client_all_attempts_fail[where self = fresh_ctx and CommuneClient = failing_client
      and w = fresh_world and get_node_url = demo_node_url, OF none this] none fails
  show ?thesis by (intro conjI)
qed

text \<open>
  C2. With a constructor that raises on every call and a context that has no connection
  yet, \<^verbatim>\<open>com_client\<close> calls the constructor exactly five times, raises
  \<^verbatim>\<open>ConnectionError\<close>, and leaves the field \<^verbatim>\<open>_com_client\<close> unset.
\<close>

theorem com_client_always_failing_service:
  assumes "com_client_field self = None"
    and "\<forall>n url c f. isl (CommuneClient n url c f)"
  shows "(\<exists>msg. fst (com_client get_node_url CommuneClient self w) = Inl (ConnectionError msg))
       \<and> constructor_calls (snd (snd (com_client get_node_url CommuneClient self w)))
           = constructor_calls w + 5
       \<and> com_client_field (fst (snd (com_client get_node_url CommuneClient self w))) = None"
proof -
  let ?url = "get_node_url (use_testnet self)"
  let ?loop = "connect_loop CommuneClient ?url [1..<6] self w"
  have "\<forall>i<length [1..<6]. isl (CommuneClient (constructor_calls w + i) ?url 1 False)"
    using assms(2) by simp
  from connect_loop_all_fail[where xs = "[1..<6]" and CommuneClient = CommuneClient and w = w
      and url = "get_node_url (use_testnet self)" and self = self, OF this]
  have ctx: "fst ?loop = self" and calls: "constructor_calls (snd ?loop) = constructor_calls w + 5"
    by simp_all
  have run: "com_client get_node_url CommuneClient self w
      = (Inl (ConnectionError ''Could not connect to any node''), fst ?loop, snd ?loop)"
    using assms(1) ctx by (simp add: com_client_def Let_def case_prod_beta)
  show ?thesis
    unfolding run using ctx calls assms(1) by simp
qed

theorem com_client_always_failing_service_witness:
  "com_client_field fresh_ctx = None
   \<and> isl (failing_client 0 (demo_node_url False) 1 False)
   \<and> fst (com_client demo_node_url failing_client fresh_ctx fresh_world)
       = Inl (ConnectionError ''Could not connect to any node'')
   \<and> constructor_calls (snd (snd (com_client demo_node_url failing_client fresh_ctx fresh_world))) = 5
   \<and> com_client_field (fst (snd (com_client demo_node_url failing_client fresh_ctx fresh_world))) = None"
proof -
  have none: "com_client_field fresh_ctx = None" by (simp add: fresh_ctx_def)
  have fails: "\<forall>n url c f. isl (failing_client n url c f)"
    by (simp add: failing_client_def)
  have msg: "fst (com_client demo_node_url failing_client fresh_ctx fresh_world)
      = Inl (ConnectionError ''Could not connect to any node'')"
    by code_simp
  note T = com_client_always_failing_service[where self = fresh_ctx and CommuneClient = failing_client
      and w = fresh_world and get_node_url = demo_node_url, OF none fails]
  from T have calls: "constructor_calls (snd (snd (com_client demo_node_url failing_client fresh_ctx fresh_world))) = 5"
    by (simp add: fresh_world_def)
  from T have field: "com_client_field (fst (snd (com_client demo_node_url failing_client fresh_ctx fresh_world))) = None"
    by simp
  from none fails[rule_format, of 0 "demo_node_url False" 1 False] msg calls field
  show ?thesis by (intro conjI)
qed

section \<open>Properties of print_table_standardize\<close>







section \<open>Properties of print_module_info\<close>

lemma dict_get_of_getitem: "dict_getitem k d = Inr v \<Longrightarrow> dict_get k d = v"
  by (simp add: dict_getitem_def dict_get_def split: option.splits)

text \<open>
  The loop over the normalized records adds up the stakes, adds up the balances that
  are there, and appends one row per record.
\<close>

lemma rows_loop_Inr:
  "rows_loop lib ms ts tb tbl h = Inr (ts', tb', tbl') \<Longrightarrow>
     py_sum_from lib ts (map (\<lambda>m. dict_get ''stake'' (h ! m)) ms) = Inr ts'
     \<and> py_sum_from lib tb (filter (\<lambda>v. v \<noteq> PNone) (map (\<lambda>m. dict_get ''balance'' (h ! m)) ms)) = Inr tb'
     \<and> tbl' = tbl\<lparr>rows := rows tbl @ map (\<lambda>m. map (py_str lib) (map snd (h ! m))) ms\<rparr>"
proof (induction ms arbitrary: ts tb tbl)
  case Nil
  then show ?case by simp
next
  case (Cons m ms)
  note prem = Cons.prems
  obtain stake where stake: "dict_getitem ''stake'' (h ! m) = Inr stake"
    using prem by (cases "dict_getitem ''stake'' (h ! m)") (simp_all add: h_getitem_def)
  obtain ts1 where ts1: "py_add lib ts stake = Inr ts1"
    using prem stake by (cases "py_add lib ts stake") (simp_all add: h_getitem_def)
  have s: "dict_get ''stake'' (h ! m) = stake"
    using stake by (rule dict_get_of_getitem)
  show ?case
  proof (cases "dict_get ''balance'' (h ! m) \<noteq> PNone")
    case True
    obtain balance where b: "dict_getitem ''balance'' (h ! m) = Inr balance"
      using prem stake ts1 True
      by (cases "dict_getitem ''balance'' (h ! m)") (simp_all add: h_getitem_def h_get_def)
    obtain tb1 where add: "py_add lib tb balance = Inr tb1"
      using prem stake ts1 True b
      by (cases "py_add lib tb balance") (simp_all add: h_getitem_def h_get_def)
    have rest: "rows_loop lib ms ts1 tb1
          (tbl\<lparr>rows := rows tbl @ [map (py_str lib) (map snd (h ! m))]\<rparr>) h
        = Inr (ts', tb', tbl')"
      using prem stake ts1 True b add
      by (simp add: h_getitem_def h_get_def add_row_def renderable_cell_def cell_text_def
          list_all_iff comp_def)
    note IH = Cons.IH[OF rest]
    from b have v: "dict_get ''balance'' (h ! m) = balance" by (rule dict_get_of_getitem)
    have "py_sum_from lib ts (map (\<lambda>m. dict_get ''stake'' (h ! m)) (m # ms)) = Inr ts'"
      using IH by (simp add: s ts1)
    moreover have "py_sum_from lib tb
        (filter (\<lambda>v. v \<noteq> PNone) (map (\<lambda>m. dict_get ''balance'' (h ! m)) (m # ms))) = Inr tb'"
      using IH True by (simp add: v add)
    moreover have "tbl' = tbl\<lparr>rows := rows tbl @ map (\<lambda>m. map (py_str lib) (map snd (h ! m))) (m # ms)\<rparr>"
      using IH by simp
    ultimately show ?thesis by blast
  next
    case False
    have rest: "rows_loop lib ms ts1 tb
          (tbl\<lparr>rows := rows tbl @ [map (py_str lib) (map snd (h ! m))]\<rparr>) h
        = Inr (ts', tb', tbl')"
      using prem stake ts1 False
      by (simp add: h_getitem_def h_get_def add_row_def renderable_cell_def cell_text_def
          list_all_iff comp_def)
    note IH = Cons.IH[OF rest]
    have "py_sum_from lib ts (map (\<lambda>m. dict_get ''stake'' (h ! m)) (m # ms)) = Inr ts'"
      using IH by (simp add: s ts1)
    moreover have "py_sum_from lib tb
        (filter (\<lambda>v. v \<noteq> PNone) (map (\<lambda>m. dict_get ''balance'' (h ! m)) (m # ms))) = Inr tb'"
      using IH False by simp
    moreover have "tbl' = tbl\<lparr>rows := rows tbl @ map (\<lambda>m. map (py_str lib) (map snd (h ! m))) (m # ms)\<rparr>"
      using IH by simp
    ultimately show ?thesis by blast
  qed
qed

text \<open>
  C8. When \<^verbatim>\<open>print_module_info\<close> prints a table for a non-empty list of records, the
  caption is \<^verbatim>\<open>total balance: \<close> followed by the text of a total and the unit
  suffix \<^verbatim>\<open>J\<close>. The total is the sum of the stakes of all normalized records added to
  the sum of the balances of those normalized records that have one; a record without
  a balance adds nothing. Sums are Python's, from the left, starting at 0.
\<close>

theorem print_module_info_caption:
  assumes "modules \<noteq> []"
    and "print_module_info lib client modules console netuid ttl h = (Inr console', h')"
  shows "\<exists>last_block immunity_period tempo tms tbl stake_sum balance_sum total.
      get_block client = Inr (Some last_block)
      \<and> get_immunity_period client netuid = Inr immunity_period
      \<and> get_tempo client netuid = Inr tempo
      \<and> transform_module_into lib [''stake_from'', ''last_update'', ''regblock'']
            last_block immunity_period modules tempo h = (Inr tms, h')
      \<and> console' = console @ [PrintTable tbl, PrintBlank, PrintBlank, PrintBlank]
      \<and> py_sum lib (map (\<lambda>m. dict_get ''stake'' (h' ! m)) tms) = Inr stake_sum
      \<and> py_sum lib (filter (\<lambda>v. v \<noteq> PNone) (map (\<lambda>m. dict_get ''balance'' (h' ! m)) tms))
            = Inr balance_sum
      \<and> py_add lib balance_sum stake_sum = Inr total
      \<and> caption tbl = Some (''total balance: '' @ py_str lib total @ ''J'')"
proof -
  let ?excl = "[''stake_from'', ''last_update'', ''regblock'']"
  from assms obtain block where gb: "get_block client = Inr block"
    by (cases "get_block client") (simp_all add: print_module_info_def on_ok_def)
  from assms gb obtain last_block where lb: "block = Some last_block"
    by (cases block) (simp_all add: print_module_info_def on_ok_def)
  from assms gb lb obtain immunity_period where ip: "get_immunity_period client netuid = Inr immunity_period"
    by (cases "get_immunity_period client netuid") (simp_all add: print_module_info_def on_ok_def)
  from assms gb lb ip obtain tempo where tp: "get_tempo client netuid = Inr tempo"
    by (cases "get_tempo client netuid") (simp_all add: print_module_info_def on_ok_def)
  obtain r h1 where tr: "transform_module_into lib ?excl last_block immunity_period modules tempo h = (r, h1)"
    by (cases "transform_module_into lib ?excl last_block immunity_period modules tempo h")
  from assms gb lb ip tp tr obtain tms where r: "r = Inr tms"
    by (cases r) (simp_all add: print_module_info_def on_ok_def Let_def)
  from assms gb lb ip tp tr r obtain sample_mod others where tms: "tms = sample_mod # others"
    by (cases tms) (simp_all add: print_module_info_def on_ok_def Let_def)
  let ?table = "foldl (\<lambda>t key. add_column key t) (new_table ttl) (keys (h1 ! sample_mod))"
  from assms gb lb ip tp tr r tms
  have tail: "on_ok (rows_loop lib tms (PInt 0) (PInt 0) ?table h1) h1
        (\<lambda>(total_stake, total_balance, table).
           on_ok (py_add lib total_balance total_stake) h1 (\<lambda>total.
             (Inr (console @ [PrintTable (table\<lparr>caption :=
                 Some (''total balance: '' @ py_str lib total @ ''J'')\<rparr>),
                 PrintBlank, PrintBlank, PrintBlank]), h1)))
      = (Inr console', h')"
    by (simp add: print_module_info_def on_ok_def Let_def)
  then obtain ts tb tbl0 where loop: "rows_loop lib tms (PInt 0) (PInt 0) ?table h1 = Inr (ts, tb, tbl0)"
    and tail2: "on_ok (py_add lib tb ts) h1 (\<lambda>total.
             (Inr (console @ [PrintTable (tbl0\<lparr>caption :=
                 Some (''total balance: '' @ py_str lib total @ ''J'')\<rparr>),
                 PrintBlank, PrintBlank, PrintBlank]), h1)) = (Inr console', h')"
    by (auto simp: on_ok_Inr)
  from tail2 obtain total where total: "py_add lib tb ts = Inr total"
    and out: "console' = console @ [PrintTable (tbl0\<lparr>caption :=
                 Some (''total balance: '' @ py_str lib total @ ''J'')\<rparr>),
                 PrintBlank, PrintBlank, PrintBlank]"
    and heap: "h' = h1"
    by (auto simp: on_ok_Inr)
  note L = rows_loop_Inr[OF loop]
  have sums: "py_sum lib (map (\<lambda>m. dict_get ''stake'' (h' ! m)) tms) = Inr ts"
    "py_sum lib (filter (\<lambda>v. v \<noteq> PNone) (map (\<lambda>m. dict_get ''balance'' (h' ! m)) tms)) = Inr tb"
    using L by (simp_all add: py_sum_def heap)
  have cap: "caption (tbl0\<lparr>caption := Some (''total balance: '' @ py_str lib total @ ''J'')\<rparr>)
      = Some (''total balance: '' @ py_str lib total @ ''J'')"
    by simp
  from gb lb ip tp tr r heap out sums total cap show ?thesis
    by blast
qed

lemma run_print_ab:
  "print_module_info exact_lib demo_client [0, 1] [] 0 None [module_a, module_b] =
     (Inr [PrintTable
             \<lparr>title = None,
              columns = [''uid'', ''name'', ''stake'', ''emission'', ''in_immunity''],
              rows = [[''0'', ''alpha'', ''3/2'', ''1/50'', ''True''],
                      [''1'', ''beta'', ''5/2'', ''0/1'', ''5/1'', ''True'']],
              caption = Some ''total balance: 9/1J''\<rparr>,
           PrintBlank, PrintBlank, PrintBlank],
      [module_a, module_b,
       [(''uid'', PInt 0), (''name'', PStr ''alpha''), (''stake'', PFloat (3 / 2)),
        (''emission'', PFloat (1 / 50)), (''in_immunity'', PBool True)],
       [(''uid'', PInt 1), (''name'', PStr ''beta''), (''stake'', PFloat (5 / 2)),
        (''emission'', PFloat 0), (''balance'', PFloat 5), (''in_immunity'', PBool True)]])"
  by code_simp

theorem print_module_info_caption_witness:
  "[0, 1] \<noteq> ([] :: nat list)
   \<and> fst (print_module_info exact_lib demo_client [0, 1] [] 0 None [module_a, module_b])
       = Inr [PrintTable
                \<lparr>title = None,
                 columns = [''uid'', ''name'', ''stake'', ''emission'', ''in_immunity''],
                 rows = [[''0'', ''alpha'', ''3/2'', ''1/50'', ''True''],
                         [''1'', ''beta'', ''5/2'', ''0/1'', ''5/1'', ''True'']],
                 caption = Some ''total balance: 9/1J''\<rparr>,
              PrintBlank, PrintBlank, PrintBlank]
   \<and> (\<exists>stake_sum balance_sum total.
         py_sum exact_lib [PFloat (3 / 2), PFloat (5 / 2)] = Inr stake_sum
         \<and> py_sum exact_lib [PFloat 5] = Inr balance_sum
         \<and> py_add exact_lib balance_sum stake_sum = Inr total
         \<and> ''total balance: 9/1J'' = ''total balance: '' @ py_str exact_lib total @ ''J'')"
proof -
  let ?excl = "[''stake_from'', ''last_update'', ''regblock'']"
  let ?out_a = "[(''uid'', PInt 0), (''name'', PStr ''alpha''), (''stake'', PFloat (3 / 2)),
        (''emission'', PFloat (1 / 50)), (''in_immunity'', PBool True)] :: rat pydict"
  let ?out_b = "[(''uid'', PInt 1), (''name'', PStr ''beta''), (''stake'', PFloat (5 / 2)),
        (''emission'', PFloat 0), (''balance'', PFloat 5), (''in_immunity'', PBool True)] :: rat pydict"
  let ?H = "[module_a, module_b, ?out_a, ?out_b]"
  have ne: "[0, 1] \<noteq> ([] :: nat list)" by simp
  have f: "fst (print_module_info exact_lib demo_client [0, 1] [] 0 None [module_a, module_b])
       = Inr [PrintTable
                \<lparr>title = None,
                 columns = [''uid'', ''name'', ''stake'', ''emission'', ''in_immunity''],
                 rows = [[''0'', ''alpha'', ''3/2'', ''1/50'', ''True''],
                         [''1'', ''beta'', ''5/2'', ''0/1'', ''5/1'', ''True'']],
                 caption = Some ''total balance: 9/1J''\<rparr>,
              PrintBlank, PrintBlank, PrintBlank]"
    by (simp add: run_print_ab[unfolded One_nat_def])
  from print_module_info_caption[OF ne run_print_ab]
  obtain lb ip t tms tbl stake_sum balance_sum total where
    gb: "get_block demo_client = Inr (Some lb)"
    and gi: "get_immunity_period demo_client 0 = Inr ip"
    and gt: "get_tempo demo_client 0 = Inr t"
    and tr: "transform_module_into exact_lib ?excl lb ip [0, 1] t [module_a, module_b] = (Inr tms, ?H)"
    and out: "[PrintTable
                \<lparr>title = None,
                 columns = [''uid'', ''name'', ''stake'', ''emission'', ''in_immunity''],
                 rows = [[''0'', ''alpha'', ''3/2'', ''1/50'', ''True''],
                         [''1'', ''beta'', ''5/2'', ''0/1'', ''5/1'', ''True'']],
                 caption = Some ''total balance: 9/1J''\<rparr>,
              PrintBlank, PrintBlank, PrintBlank]
            = [] @ [PrintTable tbl, PrintBlank, PrintBlank, PrintBlank]"
    and s1: "py_sum exact_lib (map (\<lambda>m. dict_get ''stake'' (?H ! m)) tms) = Inr stake_sum"
    and s2: "py_sum exact_lib (filter (\<lambda>v. v \<noteq> PNone) (map (\<lambda>m. dict_get ''balance'' (?H ! m)) tms))
               = Inr balance_sum"
    and add: "py_add exact_lib balance_sum stake_sum = Inr total"
    and cap: "caption tbl = Some (''total balance: '' @ py_str exact_lib total @ ''J'')"
    by blast
  from gb gi gt have "lb = 140" and "ip = 50" and "t = 100"
    by (simp_all add: demo_client_def)
  with tr run_ab_140 have tms: "tms = [2, 3]"
    by (simp add: excluded_def)
  from s1 have a: "py_sum exact_lib [PFloat (3 / 2), PFloat (5 / 2)] = Inr stake_sum"
    by (simp add: tms dict_get_def)
  from s2 have b: "py_sum exact_lib [PFloat 5] = Inr balance_sum"
    by (simp add: tms dict_get_def)
  from out cap have c: "''total balance: 9/1J'' = ''total balance: '' @ py_str exact_lib total @ ''J''"
    by auto
  from a b add c have "\<exists>stake_sum balance_sum total.
         py_sum exact_lib [PFloat (3 / 2), PFloat (5 / 2)] = Inr stake_sum
         \<and> py_sum exact_lib [PFloat 5] = Inr balance_sum
         \<and> py_add exact_lib balance_sum stake_sum = Inr total
         \<and> ''total balance: 9/1J'' = ''total balance: '' @ py_str exact_lib total @ ''J''"
    by blast
  with ne f show ?thesis by (intro conjI)
qed

end
